theory Spec2Isabelle
  imports Main
begin

section \<open>JavaScript values the services rely on\<close>

text \<open>
  JavaScript treats \<^verbatim>\<open>undefined\<close>, \<^verbatim>\<open>null\<close> and the empty string as false in a
  condition. An optional string field is \<open>None\<close> when the key is absent.
\<close>

definition truthy :: "string option \<Rightarrow> bool" where
  "truthy s = (case s of None \<Rightarrow> False | Some t \<Rightarrow> t \<noteq> [])"

text \<open>
  \<^verbatim>\<open>String.prototype.replace(searchString, replaceValue)\<close> with two strings: only the
  first occurrence of \<open>searchString\<close> is replaced, and the replacement text is expanded
  by the abstract operation GetSubstitution of ECMAScript: \<^verbatim>\<open>$$\<close> becomes \<^verbatim>\<open>$\<close>,
  \<^verbatim>\<open>$&\<close> the matched text, \<^verbatim>\<open>$`\<close> the text before the match and \<^verbatim>\<open>$'\<close> the
  text after it. A string pattern has no capture groups, so \<^verbatim>\<open>$1\<close> and \<^verbatim>\<open>$<\<close>
  stay as they are, as does any other \<^verbatim>\<open>$\<close>.
\<close>

fun split_first :: "string \<Rightarrow> string \<Rightarrow> (string \<times> string) option" where
  "split_first pat [] = (if pat = [] then Some ([], []) else None)"
| "split_first pat (c # cs) =
     (if take (length pat) (c # cs) = pat then Some ([], drop (length pat) (c # cs))
      else (case split_first pat cs of
              None \<Rightarrow> None
            | Some (pre, suf) \<Rightarrow> Some (c # pre, suf)))"

fun getSubstitution :: "string \<Rightarrow> string \<Rightarrow> string \<Rightarrow> string \<Rightarrow> string" where
  "getSubstitution matched pre suf [] = []"
| "getSubstitution matched pre suf [c] = [c]"
| "getSubstitution matched pre suf (c # d # ds) =
     (if c = CHR ''$'' then
        (if d = CHR ''$'' then CHR ''$'' # getSubstitution matched pre suf ds
         else if d = CHR ''&'' then matched @ getSubstitution matched pre suf ds
         else if d = CHR ''`'' then pre @ getSubstitution matched pre suf ds
         else if d = CHR 0x27 then suf @ getSubstitution matched pre suf ds
         else c # getSubstitution matched pre suf (d # ds))
      else c # getSubstitution matched pre suf (d # ds))"

definition replace :: "string \<Rightarrow> string \<Rightarrow> string \<Rightarrow> string" where
  "replace s searchString replaceValue =
     (case split_first searchString s of
        None \<Rightarrow> s
      | Some (pre, suf) \<Rightarrow>
          pre @ getSubstitution searchString pre suf replaceValue @ suf)"

text \<open>
  A plain object written key by key: \<^verbatim>\<open>acc[key] = value\<close> overwrites the entry of an
  existing key in place and appends a new key. (Keys that are canonical array indices
  are enumerated first by JavaScript; the property names of the documents are not.)
\<close>

fun obj_set :: "(string \<times> 'a) list \<Rightarrow> string \<Rightarrow> 'a \<Rightarrow> (string \<times> 'a) list" where
  "obj_set [] key v = [(key, v)]"
| "obj_set ((k, w) # kvs) key v =
     (if k = key then (key, v) # kvs else (k, w) # obj_set kvs key v)"

section \<open>The interface document\<close>

text \<open>
  A schema node of the OpenAPI document, with the fields the services read:
  \<^verbatim>\<open>$ref\<close>, \<^verbatim>\<open>type\<close>, \<^verbatim>\<open>items\<close>, \<^verbatim>\<open>properties\<close> (in key order) and
  \<^verbatim>\<open>required\<close>. A field is \<open>None\<close> when the node does not have the key.
\<close>

datatype schema =
  Schema (ref: "string option") (type: "string option") (items: "schema option")
    (properties: "(string \<times> schema) list option") (required: "string list option")

text \<open>The validators built with zod; \<open>ZOptional\<close> is what \<^verbatim>\<open>.optional()\<close> wraps.\<close>

datatype zod =
  ZAny | ZString | ZNumber | ZBoolean | ZArray zod | ZObject "(string \<times> zod) list"
  | ZOptional zod

fun is_optional :: "zod \<Rightarrow> bool" where
  "is_optional (ZOptional z) = True"
| "is_optional z = False"

section \<open>resolveSchemaRef\<close>

text \<open>
  The table is \<^verbatim>\<open>components.schemas\<close> of the document as its list of entries (the keys
  of a parsed JSON object are distinct); a document without the table has the empty one.
  The result \<open>None\<close> is the source's \<^verbatim>\<open>null\<close>.
\<close>

definition resolveSchemaRef :: "schema option \<Rightarrow> (string \<times> schema) list \<Rightarrow> schema option" where
  "resolveSchemaRef schema jsonObj =
     (case schema of
        None \<Rightarrow> None
      | Some s \<Rightarrow>
          (if truthy (ref s)
           then map_of jsonObj (replace (the (ref s)) ''#/components/schemas/'' '''')
           else Some s))"

section \<open>convertSchemaPropertyToZod\<close>

text \<open>
  The closure is the same in both services, up to the document it resolves against.
  It recurses through the schema table and has no cycle detection. The first argument
  is the call depth the engine still allows: \<open>None\<close> is the \<^verbatim>\<open>RangeError\<close> of an
  exhausted call stack, which a cyclic table raises at every depth. \<open>put\<close> is the
  body of the reducers, \<^verbatim>\<open>acc[key] = ...; return acc\<close>, passing that error on.
\<close>

definition put ::
  "(string \<times> zod) list option \<Rightarrow> string \<Rightarrow> zod option \<Rightarrow> (string \<times> zod) list option" where
  "put acc key z =
     (case acc of
        None \<Rightarrow> None
      | Some a \<Rightarrow> (case z of None \<Rightarrow> None | Some v \<Rightarrow> Some (obj_set a key v)))"

definition isRequired :: "string list option \<Rightarrow> string \<Rightarrow> bool" where
  "isRequired req key = (case req of None \<Rightarrow> False | Some r \<Rightarrow> key \<in> set r)"

fun convertSchemaPropertyToZod ::
  "nat \<Rightarrow> (string \<times> schema) list \<Rightarrow> schema option \<Rightarrow> bool \<Rightarrow> zod option" where
  "convertSchemaPropertyToZod 0 jsonObj prop makeOptional = None"
| "convertSchemaPropertyToZod (Suc n) jsonObj None makeOptional =
     Some (if makeOptional then ZOptional ZAny else ZAny)"
| "convertSchemaPropertyToZod (Suc n) jsonObj (Some prop) makeOptional =
     (case (if truthy (ref prop) then resolveSchemaRef (Some prop) jsonObj else Some prop) of
        None \<Rightarrow> Some (if makeOptional then ZOptional ZAny else ZAny)
      | Some resolvedProp \<Rightarrow>
          map_option (\<lambda>zodSchema. if makeOptional then ZOptional zodSchema else zodSchema)
            (if type resolvedProp = Some ''string'' then Some ZString
             else if type resolvedProp = Some ''number'' \<or> type resolvedProp = Some ''integer''
               then Some ZNumber
             else if type resolvedProp = Some ''boolean'' then Some ZBoolean
             else if type resolvedProp = Some ''array'' then
               (case items resolvedProp of
                  None \<Rightarrow> Some (ZArray ZAny)
                | Some its \<Rightarrow>
                    (case (if truthy (ref its) then resolveSchemaRef (Some its) jsonObj
                           else Some its) of
                       None \<Rightarrow> Some (ZArray ZAny)
                     | Some itemSchema \<Rightarrow>
                         map_option ZArray
                           (convertSchemaPropertyToZod n jsonObj (Some itemSchema) False)))
             else if type resolvedProp = Some ''object'' then
               (case properties resolvedProp of
                  None \<Rightarrow> Some (ZObject [])
                | Some props \<Rightarrow>
                    map_option ZObject
                      (fold (\<lambda>(key, val) acc.
                          put acc key
                            (convertSchemaPropertyToZod n jsonObj (Some val)
                               (\<not> isRequired (required resolvedProp) key)))
                         props (Some [])))
             else Some ZAny))"

section \<open>Operations, path items and tools\<close>

text \<open>
  Modelled from the spec: the types \<^verbatim>\<open>Parameter\<close> and \<^verbatim>\<open>SdkRequestType\<close>, whose
  declarations (\<^verbatim>\<open>types/admin-json\<close>, \<^verbatim>\<open>types/store-json\<close>) are not among the sources.
  The records have the fields the services read. A parameter has \<^verbatim>\<open>name\<close>, \<^verbatim>\<open>in\<close>
  and \<^verbatim>\<open>schema\<close>. Of an operation the services read \<^verbatim>\<open>operationId\<close>,
  \<^verbatim>\<open>description\<close>, \<^verbatim>\<open>parameters\<close> and the schema at
  \<^verbatim>\<open>requestBody?.content?.["application/json"]?.schema\<close>, here the field
  \<open>requestBody\<close>. A path item holds an operation under each of the keys \<^verbatim>\<open>get\<close>,
  \<^verbatim>\<open>post\<close> and \<^verbatim>\<open>delete\<close> it has.
\<close>

record parameter =
  p_name :: string
  p_in :: string
  p_schema :: "schema option"

record operation =
  operationId :: "string option"
  description :: "string option"
  parameters :: "parameter list option"
  requestBody :: "schema option"

record pathitem =
  get :: "operation option"
  post :: "operation option"
  delete :: "operation option"

text \<open>
  The variables \<^verbatim>\<open>name\<close>, \<^verbatim>\<open>description\<close>, \<^verbatim>\<open>parameters\<close>, \<^verbatim>\<open>method\<close> and
  \<^verbatim>\<open>requestBodySchema\<close> of \<^verbatim>\<open>wrapPath\<close> after its chain of \<^verbatim>\<open>in\<close> tests.
  \<open>sel_parameters\<close> is \<open>None\<close> when the variable holds no array: the admin service
  puts the empty string there for a \<^verbatim>\<open>get\<close> without parameters, the store service
  leaves \<^verbatim>\<open>undefined\<close>.
\<close>

record selected =
  sel_name :: "string option"
  sel_description :: "string option"
  sel_parameters :: "parameter list option"
  sel_method :: string
  sel_requestBodySchema :: "schema option"

definition or_empty :: "parameter list option \<Rightarrow> parameter list" where
  "or_empty ps = (case ps of None \<Rightarrow> [] | Some l \<Rightarrow> l)"

definition admin_select :: "(string \<times> schema) list \<Rightarrow> pathitem \<Rightarrow> selected" where
  "admin_select adminJson refFunction =
     (case get refFunction of
        Some g \<Rightarrow>
          \<lparr>sel_name = operationId g, sel_description = description g,
           sel_parameters = parameters g, sel_method = ''get'',
           sel_requestBodySchema = None\<rparr>
      | None \<Rightarrow>
          (case post refFunction of
             Some p \<Rightarrow>
               \<lparr>sel_name = operationId p, sel_description = description p,
                sel_parameters = Some (or_empty (parameters p)), sel_method = ''post'',
                sel_requestBodySchema =
                  (case requestBody p of
                     None \<Rightarrow> None
                   | Some schema \<Rightarrow> resolveSchemaRef (Some schema) adminJson)\<rparr>
           | None \<Rightarrow>
               (case delete refFunction of
                  Some d \<Rightarrow>
                    \<lparr>sel_name = operationId d, sel_description = description d,
                     sel_parameters = Some (or_empty (parameters d)), sel_method = ''delete'',
                     sel_requestBodySchema = None\<rparr>
                | None \<Rightarrow>
                    \<lparr>sel_name = None, sel_description = None, sel_parameters = Some [],
                     sel_method = ''get'', sel_requestBodySchema = None\<rparr>)))"

definition store_select :: "(string \<times> schema) list \<Rightarrow> pathitem \<Rightarrow> selected" where
  "store_select storeJson refFunction =
     (case get refFunction of
        Some g \<Rightarrow>
          \<lparr>sel_name = operationId g, sel_description = description g,
           sel_parameters = parameters g, sel_method = ''get'',
           sel_requestBodySchema = None\<rparr>
      | None \<Rightarrow>
          (case post refFunction of
             Some p \<Rightarrow>
               \<lparr>sel_name = operationId p, sel_description = description p,
                sel_parameters = Some (or_empty (parameters p)), sel_method = ''post'',
                sel_requestBodySchema =
                  (case requestBody p of
                     None \<Rightarrow> None
                   | Some schema \<Rightarrow> resolveSchemaRef (Some schema) storeJson)\<rparr>
           | None \<Rightarrow>
               \<lparr>sel_name = None, sel_description = None, sel_parameters = Some [],
                sel_method = ''get'', sel_requestBodySchema = None\<rparr>))"

text \<open>The input schema: the parameters outside the headers, then the body fields.\<close>

definition parameterSchema ::
  "nat \<Rightarrow> (string \<times> schema) list \<Rightarrow> parameter list \<Rightarrow> (string \<times> zod) list option" where
  "parameterSchema n jsonObj ps =
     fold (\<lambda>param acc.
         put acc (p_name param) (convertSchemaPropertyToZod n jsonObj (p_schema param) True))
       (filter (\<lambda>p. p_in p \<noteq> ''header'') ps) (Some [])"

definition bodySchema ::
  "nat \<Rightarrow> (string \<times> schema) list \<Rightarrow> schema option \<Rightarrow> (string \<times> zod) list option" where
  "bodySchema n jsonObj requestBodySchema =
     (case requestBodySchema of
        None \<Rightarrow> Some []
      | Some s \<Rightarrow>
          (case properties s of
             None \<Rightarrow> Some []
           | Some props \<Rightarrow>
               fold (\<lambda>(key, val) acc.
                   put acc key (convertSchemaPropertyToZod n jsonObj (Some val) True))
                 props (Some [])))"

text \<open>\<^verbatim>\<open>{...a, ...b}\<close>: the entries of \<open>a\<close>, then those of \<open>b\<close>, written into a new object.\<close>

definition spread :: "(string \<times> 'a) list \<Rightarrow> (string \<times> 'a) list \<Rightarrow> (string \<times> 'a) list" where
  "spread a b = fold (\<lambda>(k, v) acc. obj_set acc k v) (a @ b) []"

text \<open>
  What the callback of \<^verbatim>\<open>wrapPath\<close> returns: the name, the description (\<open>None\<close> is
  \<^verbatim>\<open>undefined\<close>), the input schema, and the variables its handler closes over.
\<close>

record tool =
  name :: string
  tool_description :: "string option"
  inputSchema :: "(string \<times> zod) list"
  refPath :: string
  tool_method :: string
  tool_parameters :: "parameter list"
  requestBodySchema :: "schema option"

datatype error = Error string | TypeError | RangeError

text \<open>
  Modelled from the spec: \<^verbatim>\<open>defineTool\<close> of \<^verbatim>\<open>utils/define-tools\<close>, which is not among
  the sources. Tool compilation happens at startup and its failure ends the compilation
  of the document, and \<^verbatim>\<open>main\<close> reads the name of each record \<^verbatim>\<open>defineTools\<close>
  returns: so \<^verbatim>\<open>defineTool\<close> calls its callback at once, with zod, and hands on the
  record, and an exception of the callback is an exception of \<^verbatim>\<open>wrapPath\<close>.
\<close>

definition defineTool :: "(unit \<Rightarrow> error + tool) \<Rightarrow> error + tool" where
  "defineTool cb = cb ()"

text \<open>
  The part of \<^verbatim>\<open>wrapPath\<close> after the test of the name, which the two services share
  but for the name and the description they give the tool: \<^verbatim>\<open>parameters.filter\<close> is a
  \<^verbatim>\<open>TypeError\<close> when \<^verbatim>\<open>parameters\<close> is no array.
\<close>

definition build_tool ::
  "nat \<Rightarrow> (string \<times> schema) list \<Rightarrow> string \<Rightarrow> selected \<Rightarrow> string \<Rightarrow> string option \<Rightarrow>
   error + tool" where
  "build_tool n jsonObj path sel nm descr =
     (case sel_parameters sel of
        None \<Rightarrow> Inl TypeError
      | Some ps \<Rightarrow>
          (case parameterSchema n jsonObj ps of
             None \<Rightarrow> Inl RangeError
           | Some pschema \<Rightarrow>
               (case bodySchema n jsonObj (sel_requestBodySchema sel) of
                  None \<Rightarrow> Inl RangeError
                | Some bschema \<Rightarrow>
                    Inr \<lparr>name = nm, tool_description = descr,
                         inputSchema = spread pschema bschema, refPath = path,
                         tool_method = sel_method sel, tool_parameters = ps,
                         requestBodySchema = sel_requestBodySchema sel\<rparr>)))"

definition admin_wrapPath ::
  "nat \<Rightarrow> (string \<times> schema) list \<Rightarrow> string \<Rightarrow> pathitem \<Rightarrow> error + tool" where
  "admin_wrapPath n adminJson path refFunction =
     defineTool (\<lambda>z.
       let sel = admin_select adminJson refFunction in
       if \<not> truthy (sel_name sel) then Inl (Error (''No name found for path: '' @ path))
       else build_tool n adminJson path sel (''Admin'' @ the (sel_name sel))
              (Some (''This tool helps store administors. '' @
                 (case sel_description sel of None \<Rightarrow> ''undefined'' | Some d \<Rightarrow> d))))"

definition store_wrapPath ::
  "nat \<Rightarrow> (string \<times> schema) list \<Rightarrow> string \<Rightarrow> pathitem \<Rightarrow> error + tool" where
  "store_wrapPath n storeJson path refFunction =
     defineTool (\<lambda>z.
       let sel = store_select storeJson refFunction in
       if \<not> truthy (sel_name sel) then Inl (Error ''No name found for the function'')
       else build_tool n storeJson path sel (the (sel_name sel)) (sel_description sel))"

section \<open>The handler\<close>

text \<open>
  The arguments of a call are JSON values; a number is modelled where it is an integer
  that JavaScript prints in decimal. \<open>toString\<close> is \<^verbatim>\<open>String(value)\<close>.
\<close>

datatype jsval =
  JNull | JBool bool | JNumber int | JString string | JArray "jsval list"
  | JObject "(string \<times> jsval) list"

fun digits :: "nat \<Rightarrow> string" where
  "digits n =
     (if n < 10 then [''0123456789'' ! n]
      else digits (n div 10) @ [''0123456789'' ! (n mod 10)])"

fun join :: "string \<Rightarrow> string list \<Rightarrow> string" where
  "join sep [] = []"
| "join sep [x] = x"
| "join sep (x # y # ys) = x @ sep @ join sep (y # ys)"

fun toString :: "jsval \<Rightarrow> string" where
  "toString JNull = ''null''"
| "toString (JBool b) = (if b then ''true'' else ''false'')"
| "toString (JNumber i) = (if i < 0 then CHR ''-'' # digits (nat (- i)) else digits (nat i))"
| "toString (JString s) = s"
| "toString (JArray xs) = join '','' (map (\<lambda>x. if x = JNull then [] else toString x) xs)"
| "toString (JObject kvs) = ''[object Object]''"

text \<open>
  The call \<^verbatim>\<open>this.sdk.client.fetch(finalPath, {...})\<close> the handler makes; its answer is
  the backend's. \<open>req_body\<close> is \<open>None\<close> when the options carry no body.
\<close>

record request =
  req_path :: string
  req_method :: string
  req_headers :: "(string \<times> string) list"
  req_query :: "(string \<times> string) list"
  req_body :: "(string \<times> jsval) list option"

definition bodyPropertyNames :: "schema option \<Rightarrow> string list" where
  "bodyPropertyNames body =
     (case body of
        None \<Rightarrow> []
      | Some s \<Rightarrow> (case properties s of None \<Rightarrow> [] | Some props \<Rightarrow> map fst props))"

text \<open>
  The first loop of the handler over \<^verbatim>\<open>Object.entries(input)\<close>, given as the list of
  entries; the state is \<open>(queryParams, pathParams, bodyParams)\<close>.
\<close>

definition route_step ::
  "parameter list \<Rightarrow> string list \<Rightarrow> string \<times> jsval \<Rightarrow>
   (string \<times> jsval) list \<times> (string \<times> jsval) list \<times> (string \<times> jsval) list \<Rightarrow>
   (string \<times> jsval) list \<times> (string \<times> jsval) list \<times> (string \<times> jsval) list" where
  "route_step ps names kv st =
     (case st of (queryParams, pathParams, bodyParams) \<Rightarrow>
        (case find (\<lambda>p. p_name p = fst kv) ps of
           Some param \<Rightarrow>
             (if p_in param = ''path''
                then (queryParams, obj_set pathParams (fst kv) (snd kv), bodyParams)
              else if p_in param = ''query''
                then (obj_set queryParams (fst kv) (snd kv), pathParams, bodyParams)
              else (queryParams, pathParams, bodyParams))
         | None \<Rightarrow>
             (if fst kv \<in> set names
                then (queryParams, pathParams, obj_set bodyParams (fst kv) (snd kv))
              else (queryParams, pathParams, bodyParams))))"

definition route ::
  "parameter list \<Rightarrow> string list \<Rightarrow> (string \<times> jsval) list \<Rightarrow>
   (string \<times> jsval) list \<times> (string \<times> jsval) list \<times> (string \<times> jsval) list" where
  "route ps names input = fold (route_step ps names) input ([], [], [])"

text \<open>The second loop: one \<^verbatim>\<open>replace\<close> per path parameter, each on the path so far.\<close>

definition finalPath :: "string \<Rightarrow> (string \<times> jsval) list \<Rightarrow> string" where
  "finalPath path pathParams =
     fold (\<lambda>(key, val) fp. replace fp (''{'' @ key @ ''}'') (toString val)) pathParams path"

text \<open>
  The handler of the record, up to the call it makes. The two services differ in the
  credential after \<^verbatim>\<open>Bearer\<close> and in a line the store service logs: the admin
  service reads its token when the handler runs, the store service the publishable key
  of the environment, which the template prints as \<^verbatim>\<open>undefined\<close> when it is not set.
\<close>

definition handler :: "string \<Rightarrow> tool \<Rightarrow> (string \<times> jsval) list \<Rightarrow> request" where
  "handler credential t input =
     (case route (tool_parameters t) (bodyPropertyNames (requestBodySchema t)) input of
        (queryParams, pathParams, bodyParams) \<Rightarrow>
          \<lparr>req_path = finalPath (refPath t) pathParams,
           req_method = tool_method t,
           req_headers =
             [(''Content-Type'', ''application/json''), (''Accept'', ''application/json''),
              (''Authorization'', ''Bearer '' @ credential)],
           req_query = map (\<lambda>(k, v). (k, toString v)) queryParams,
           req_body = (if tool_method t = ''get'' then None else Some bodyParams)\<rparr>)"

record admin_service =
  adminToken :: string

definition admin_handler :: "admin_service \<Rightarrow> tool \<Rightarrow> (string \<times> jsval) list \<Rightarrow> request" where
  "admin_handler svc t input = handler (adminToken svc) t input"

definition store_handler :: "string option \<Rightarrow> tool \<Rightarrow> (string \<times> jsval) list \<Rightarrow> request" where
  "store_handler publishable_key t input =
     handler (case publishable_key of None \<Rightarrow> ''undefined'' | Some k \<Rightarrow> k) t input"

section \<open>defineTools and main\<close>

text \<open>
  \<^verbatim>\<open>defineTools\<close> maps \<^verbatim>\<open>wrapPath\<close> over the entries of \<^verbatim>\<open>paths\<close>; the first exception
  ends it.
\<close>

fun map_paths ::
  "(string \<Rightarrow> pathitem \<Rightarrow> error + tool) \<Rightarrow> (string \<times> pathitem) list \<Rightarrow> error + tool list" where
  "map_paths f [] = Inr []"
| "map_paths f ((path, refFunction) # rest) =
     (case f path refFunction of
        Inl e \<Rightarrow> Inl e
      | Inr t \<Rightarrow> (case map_paths f rest of Inl e \<Rightarrow> Inl e | Inr ts \<Rightarrow> Inr (t # ts)))"

record document =
  paths :: "(string \<times> pathitem) list"
  schemas :: "(string \<times> schema) list"

definition admin_defineTools :: "nat \<Rightarrow> document \<Rightarrow> document \<Rightarrow> error + tool list" where
  "admin_defineTools n adminJson admin =
     map_paths (admin_wrapPath n (schemas adminJson)) (paths admin)"

definition store_defineTools :: "nat \<Rightarrow> document \<Rightarrow> document \<Rightarrow> error + tool list" where
  "store_defineTools n storeJson store =
     map_paths (store_wrapPath n (schemas storeJson)) (paths store)"

text \<open>
  \<^verbatim>\<open>init\<close> stores the token of the login in the service; the login itself is the
  backend's, so its outcome is an argument. \<open>assemble\<close> is the \<^verbatim>\<open>try\<close> statement of
  \<^verbatim>\<open>main\<close>: \<open>try_tools\<close> is the array built after \<^verbatim>\<open>init\<close>, \<open>catch_tools\<close> the
  \<^verbatim>\<open>catch\<close> block, which compiles the store document again and whose exception is
  the one of \<^verbatim>\<open>main\<close>. The result is the service and the tools.
\<close>

definition init :: "error + string \<Rightarrow> admin_service \<Rightarrow> error + admin_service" where
  "init login svc =
     (case login of Inl e \<Rightarrow> Inl e | Inr res \<Rightarrow> Inr (svc\<lparr>adminToken := res\<rparr>))"

definition try_tools :: "error + tool list \<Rightarrow> error + tool list \<Rightarrow> error + tool list" where
  "try_tools storeTools adminTools =
     (case storeTools of
        Inl e \<Rightarrow> Inl e
      | Inr st \<Rightarrow> (case adminTools of Inl e \<Rightarrow> Inl e | Inr at \<Rightarrow> Inr (st @ at)))"

definition catch_tools ::
  "admin_service \<Rightarrow> error + tool list \<Rightarrow> error + admin_service \<times> tool list" where
  "catch_tools svc storeTools =
     (case storeTools of Inl e \<Rightarrow> Inl e | Inr st \<Rightarrow> Inr (svc, st))"

definition assemble ::
  "error + string \<Rightarrow> error + tool list \<Rightarrow> error + tool list \<Rightarrow> admin_service \<Rightarrow>
   error + admin_service \<times> tool list" where
  "assemble login storeTools adminTools svc =
     (case init login svc of
        Inl e \<Rightarrow> catch_tools svc storeTools
      | Inr svc' \<Rightarrow>
          (case try_tools storeTools adminTools of
             Inl e \<Rightarrow> catch_tools svc' storeTools
           | Inr tools \<Rightarrow> Inr (svc', tools)))"

text \<open>The allow-list of \<^verbatim>\<open>allowed-tools.json\<close> and the filter of \<^verbatim>\<open>main\<close>.\<close>

record allowedToolsConfig =
  allowedTools :: "string list option"
  allowAllTools :: bool

definition filter_tools :: "allowedToolsConfig \<Rightarrow> tool list \<Rightarrow> tool list" where
  "filter_tools cfg tools =
     (if \<not> allowAllTools cfg \<and> allowedTools cfg \<noteq> None \<and> 0 < length (the (allowedTools cfg))
      then filter (\<lambda>t. name t \<in> set (the (allowedTools cfg))) tools
      else tools)"

definition main_tools ::
  "nat \<Rightarrow> allowedToolsConfig \<Rightarrow> error + string \<Rightarrow> document \<Rightarrow> document \<Rightarrow>
   error + admin_service \<times> tool list" where
  "main_tools n cfg login storeJson adminJson =
     (case assemble login (store_defineTools n storeJson storeJson)
             (admin_defineTools n adminJson adminJson) \<lparr>adminToken = []\<rparr> of
        Inl e \<Rightarrow> Inl e
      | Inr (svc, tools) \<Rightarrow> Inr (svc, filter_tools cfg tools))"

section \<open>The words of the specification\<close>

text \<open>
  The specification speaks of the operation a path item exposes: the first present of
  the methods a service recognises, in their order. The admin service tests
  \<^verbatim>\<open>get\<close>, \<^verbatim>\<open>post\<close> and \<^verbatim>\<open>delete\<close>, the store service \<^verbatim>\<open>get\<close> and \<^verbatim>\<open>post\<close>. An
  operation lacks a name when no method is present or the \<^verbatim>\<open>operationId\<close> of the one
  selected is absent or empty.
\<close>

fun first_present :: "(string \<times> operation option) list \<Rightarrow> (string \<times> operation) option" where
  "first_present [] = None"
| "first_present ((m, None) # rest) = first_present rest"
| "first_present ((m, Some opn) # rest) = Some (m, opn)"

definition admin_methods :: "pathitem \<Rightarrow> (string \<times> operation option) list" where
  "admin_methods item = [(''get'', get item), (''post'', post item), (''delete'', delete item)]"

definition store_methods :: "pathitem \<Rightarrow> (string \<times> operation option) list" where
  "store_methods item = [(''get'', get item), (''post'', post item)]"

definition lacks_name :: "(string \<times> operation) option \<Rightarrow> bool" where
  "lacks_name sel =
     (case sel of None \<Rightarrow> True | Some (m, opn) \<Rightarrow> \<not> truthy (operationId opn))"

text \<open>
  The router of the specification sends an argument to the path when a parameter of its
  name is declared with location \<^verbatim>\<open>path\<close>, to the query when with location
  \<^verbatim>\<open>query\<close>, to the body when no parameter has the name and a body field does, and
  drops it otherwise. Parameter names are unique within an operation there; the
  parameter of a name is the one \<^verbatim>\<open>parameters.find\<close> returns, the first declared.
\<close>

datatype channel = Path | Query | Body | Dropped

definition spec_channel :: "parameter list \<Rightarrow> string list \<Rightarrow> string \<Rightarrow> channel" where
  "spec_channel ps names key =
     (case find (\<lambda>p. p_name p = key) ps of
        Some param \<Rightarrow>
          (if p_in param = ''path'' then Path
           else if p_in param = ''query'' then Query else Dropped)
      | None \<Rightarrow> (if key \<in> set names then Body else Dropped))"

text \<open>
  The specification takes acyclic references as a precondition of the conversion. A
  node is acyclic when the conversion's descent from it ends: through the node it
  resolves to, into the items of an array and the properties of an object.
\<close>

inductive ref_acyclic :: "(string \<times> schema) list \<Rightarrow> schema \<Rightarrow> bool" for J where
  unresolved: "resolveSchemaRef (Some s) J = None \<Longrightarrow> ref_acyclic J s"
| leaf: "resolveSchemaRef (Some s) J = Some r \<Longrightarrow> type r \<noteq> Some ''array'' \<Longrightarrow>
    type r \<noteq> Some ''object'' \<Longrightarrow> ref_acyclic J s"
| array_any: "resolveSchemaRef (Some s) J = Some r \<Longrightarrow> type r = Some ''array'' \<Longrightarrow>
    resolveSchemaRef (items r) J = None \<Longrightarrow> ref_acyclic J s"
| array_items: "resolveSchemaRef (Some s) J = Some r \<Longrightarrow> type r = Some ''array'' \<Longrightarrow>
    resolveSchemaRef (items r) J = Some i \<Longrightarrow> ref_acyclic J i \<Longrightarrow> ref_acyclic J s"
| object_empty: "resolveSchemaRef (Some s) J = Some r \<Longrightarrow> type r = Some ''object'' \<Longrightarrow>
    properties r = None \<Longrightarrow> ref_acyclic J s"
| object_props: "resolveSchemaRef (Some s) J = Some r \<Longrightarrow> type r = Some ''object'' \<Longrightarrow>
    properties r = Some props \<Longrightarrow> \<forall>kv \<in> set props. ref_acyclic J (snd kv) \<Longrightarrow>
    ref_acyclic J s"

code_pred ref_acyclic .

text \<open>
  The variables selected for a tool can be compiled when the parameters are an array and
  every schema the two reducers convert is acyclic.
\<close>

definition opt_acyclic :: "(string \<times> schema) list \<Rightarrow> schema option \<Rightarrow> bool" where
  "opt_acyclic J so = (case so of None \<Rightarrow> True | Some s \<Rightarrow> ref_acyclic J s)"

definition compilable :: "(string \<times> schema) list \<Rightarrow> selected \<Rightarrow> bool" where
  "compilable J sel =
     (case sel_parameters sel of
        None \<Rightarrow> False
      | Some ps \<Rightarrow>
          list_all (\<lambda>p. opt_acyclic J (p_schema p)) (filter (\<lambda>p. p_in p \<noteq> ''header'') ps) \<and>
          (case sel_requestBodySchema sel of
             None \<Rightarrow> True
           | Some s \<Rightarrow>
               (case properties s of
                  None \<Rightarrow> True
                | Some props \<Rightarrow> list_all (\<lambda>kv. ref_acyclic J (snd kv)) props)))"

section \<open>Concrete documents and calls\<close>

definition ex_string :: schema where
  "ex_string = Schema None (Some ''string'') None None None"

definition ex_ref_name :: schema where
  "ex_ref_name = Schema (Some ''#/components/schemas/Name'') None None None None"

definition ex_ref_alias :: schema where
  "ex_ref_alias = Schema (Some ''#/components/schemas/Alias'') None None None None"

definition ex_schemas :: "(string \<times> schema) list" where
  "ex_schemas = [(''Alias'', ex_ref_name), (''Name'', ex_string)]"

definition ex_tags :: schema where
  "ex_tags = Schema None (Some ''array'') (Some ex_ref_name) None None"

definition ex_array_bare :: schema where
  "ex_array_bare = Schema None (Some ''array'') None None None"

definition ex_array_missing :: schema where
  "ex_array_missing =
     Schema None (Some ''array'')
       (Some (Schema (Some ''#/components/schemas/Missing'') None None None None)) None None"

definition ex_object :: schema where
  "ex_object =
     Schema None (Some ''object'') None (Some [(''id'', ex_string), (''tags'', ex_tags)])
       (Some [''id''])"

definition ex_tool :: "string \<Rightarrow> tool" where
  "ex_tool nm =
     \<lparr>name = nm, tool_description = None, inputSchema = [], refPath = ''/ping'',
      tool_method = ''get'', tool_parameters = [], requestBodySchema = None\<rparr>"

definition ex_get_op :: operation where
  "ex_get_op =
     \<lparr>operationId = Some ''GetCarts'', description = Some ''Retrieve a cart.'',
      parameters = Some [], requestBody = None\<rparr>"

definition ex_post_op :: operation where
  "ex_post_op =
     \<lparr>operationId = Some ''PostCarts'', description = Some ''Update a cart.'',
      parameters = None, requestBody = None\<rparr>"

definition ex_delete_op :: operation where
  "ex_delete_op =
     \<lparr>operationId = Some ''DeleteCarts'', description = None, parameters = None,
      requestBody = None\<rparr>"

definition ex_get_post :: pathitem where
  "ex_get_post = \<lparr>get = Some ex_get_op, post = Some ex_post_op, delete = None\<rparr>"

definition ex_delete_only :: pathitem where
  "ex_delete_only = \<lparr>get = None, post = None, delete = Some ex_delete_op\<rparr>"

definition ex_no_method :: pathitem where
  "ex_no_method = \<lparr>get = None, post = None, delete = None\<rparr>"

text \<open>
  The operation of the specification's routing example: \<^verbatim>\<open>/items/{id}\<close> with the path
  parameter \<^verbatim>\<open>id\<close> and the body field \<^verbatim>\<open>name\<close>, and the tool the store service
  compiles from it. A second operation adds a header parameter and a body field that
  share the name \<^verbatim>\<open>note\<close>, and a cookie parameter (a number) and a body field (a
  string) that share the name \<^verbatim>\<open>tag\<close>.
\<close>

definition ex_items_op :: operation where
  "ex_items_op =
     \<lparr>operationId = Some ''PostItemsId'', description = Some ''Update an item.'',
      parameters = Some [\<lparr>p_name = ''id'', p_in = ''path'', p_schema = Some ex_string\<rparr>],
      requestBody =
        Some (Schema None (Some ''object'') None (Some [(''name'', ex_string)]) None)\<rparr>"

definition ex_items :: pathitem where
  "ex_items = \<lparr>get = None, post = Some ex_items_op, delete = None\<rparr>"

definition ex_items_tool :: tool where
  "ex_items_tool =
     \<lparr>name = ''PostItemsId'', tool_description = Some ''Update an item.'',
      inputSchema = [(''id'', ZOptional ZString), (''name'', ZOptional ZString)],
      refPath = ''/items/{id}'', tool_method = ''post'',
      tool_parameters = [\<lparr>p_name = ''id'', p_in = ''path'', p_schema = Some ex_string\<rparr>],
      requestBodySchema =
        Some (Schema None (Some ''object'') None (Some [(''name'', ex_string)]) None)\<rparr>"

definition ex_number :: schema where
  "ex_number = Schema None (Some ''number'') None None None"

definition ex_note_op :: operation where
  "ex_note_op =
     \<lparr>operationId = Some ''PostNotesId'', description = Some ''Update a note.'',
      parameters =
        Some [\<lparr>p_name = ''id'', p_in = ''path'', p_schema = Some ex_string\<rparr>,
              \<lparr>p_name = ''note'', p_in = ''header'', p_schema = Some ex_string\<rparr>,
              \<lparr>p_name = ''tag'', p_in = ''cookie'', p_schema = Some ex_number\<rparr>],
      requestBody =
        Some (Schema None (Some ''object'') None
                (Some [(''name'', ex_string), (''note'', ex_string), (''tag'', ex_string)])
                None)\<rparr>"

definition ex_note :: pathitem where
  "ex_note = \<lparr>get = None, post = Some ex_note_op, delete = None\<rparr>"

definition ex_note_tool :: tool where
  "ex_note_tool =
     \<lparr>name = ''PostNotesId'', tool_description = Some ''Update a note.'',
      inputSchema =
        [(''id'', ZOptional ZString), (''tag'', ZOptional ZString),
         (''name'', ZOptional ZString), (''note'', ZOptional ZString)],
      refPath = ''/notes/{id}'', tool_method = ''post'',
      tool_parameters =
        [\<lparr>p_name = ''id'', p_in = ''path'', p_schema = Some ex_string\<rparr>,
         \<lparr>p_name = ''note'', p_in = ''header'', p_schema = Some ex_string\<rparr>,
         \<lparr>p_name = ''tag'', p_in = ''cookie'', p_schema = Some ex_number\<rparr>],
      requestBodySchema =
        Some (Schema None (Some ''object'') None
                (Some [(''name'', ex_string), (''note'', ex_string), (''tag'', ex_string)])
                None)\<rparr>"

definition ex_post_delete :: pathitem where
  "ex_post_delete = \<lparr>get = None, post = Some ex_items_op, delete = Some ex_delete_op\<rparr>"

section \<open>Properties of the schema compiler\<close>

lemma resolved_eq:
  "(if truthy (ref s) then resolveSchemaRef (Some s) jsonObj else Some s) =
   resolveSchemaRef (Some s) jsonObj"
  by (simp add: resolveSchemaRef_def)

lemma keys_obj_set: "fst ` set (obj_set a key v) = insert key (fst ` set a)"
  by (induction a key v rule: obj_set.induct) auto

lemma set_obj_set: "set (obj_set a key v) \<subseteq> insert (key, v) (set a)"
  by (induction a key v rule: obj_set.induct) auto

lemma put_simps:
  "put None key z = None"
  "put (Some a) key None = None"
  "put (Some a) key (Some v) = Some (obj_set a key v)"
  by (simp_all add: put_def)

lemma fold_put_None:
  "fold (\<lambda>(key, val) acc. put acc key (g key val)) props None = None"
  by (induction props) (auto simp: put_simps)

text \<open>A reducer that returns has written exactly the keys it was given.\<close>

lemma fold_put_keys:
  "fold (\<lambda>(key, val) acc. put acc key (g key val)) props (Some a) = Some fs \<Longrightarrow>
   fst ` set fs = fst ` set a \<union> fst ` set props"
proof (induction props arbitrary: a)
  case Nil
  then show ?case by simp
next
  case (Cons kv props)
  obtain key val where kv: "kv = (key, val)" by (cases kv)
  show ?case
  proof (cases "g key val")
    case None
    with Cons.prems kv show ?thesis by (simp add: put_simps fold_put_None)
  next
    case (Some z)
    with Cons.prems kv
    have "fold (\<lambda>(key, val) acc. put acc key (g key val)) props (Some (obj_set a key z)) = Some fs"
      by (simp add: put_simps)
    from Cons.IH [OF this] kv show ?thesis by (simp add: keys_obj_set)
  qed
qed

text \<open>What holds of the entries at the start and of every value written holds at the end.\<close>

lemma fold_put_all:
  assumes "fold (\<lambda>(key, val) acc. put acc key (g key val)) props (Some a) = Some fs"
    and "\<And>key z. (key, z) \<in> set a \<Longrightarrow> Q key z"
    and "\<And>key val z. (key, val) \<in> set props \<Longrightarrow> g key val = Some z \<Longrightarrow> Q key z"
  shows "\<And>key z. (key, z) \<in> set fs \<Longrightarrow> Q key z"
  using assms
proof (induction props arbitrary: a)
  case Nil
  then show ?case by simp
next
  case (Cons kv props)
  obtain k val where kv: "kv = (k, val)" by (cases kv)
  show ?case
  proof (cases "g k val")
    case None
    with Cons.prems(2) kv show ?thesis by (simp add: put_simps fold_put_None)
  next
    case (Some w)
    with Cons.prems(2) kv
    have f: "fold (\<lambda>(key, val) acc. put acc key (g key val)) props (Some (obj_set a k w)) = Some fs"
      by (simp add: put_simps)
    have a: "\<And>key z. (key, z) \<in> set (obj_set a k w) \<Longrightarrow> Q key z"
    proof -
      fix key z assume "(key, z) \<in> set (obj_set a k w)"
      with set_obj_set [of a k w] have "(key, z) = (k, w) \<or> (key, z) \<in> set a" by auto
      then show "Q key z"
        using Cons.prems(3) Cons.prems(4) [of k val w] Some kv by auto
    qed
    show ?thesis
      by (rule Cons.IH [OF Cons.prems(1) f a]) (use Cons.prems(4) in auto)
  qed
qed

text \<open>The flag alone decides whether the validator returned is wrapped as optional.\<close>

lemma convert_top_optional:
  "convertSchemaPropertyToZod n jsonObj p makeOptional = Some z \<Longrightarrow>
   is_optional z = makeOptional"
  by (cases n; cases p) (auto split: option.splits if_splits)

text \<open>A reducer returns when every value it is to write is there, and only then.\<close>

lemma fold_put_Some:
  "\<forall>kv \<in> set props. g (fst kv) (snd kv) \<noteq> None \<Longrightarrow>
   \<exists>fs. fold (\<lambda>(key, val) acc. put acc key (g key val)) props (Some a) = Some fs"
proof (induction props arbitrary: a)
  case Nil
  then show ?case by simp
next
  case (Cons kv props)
  obtain key val where kv: "kv = (key, val)" by (cases kv)
  with Cons.prems obtain z where "g key val = Some z" by auto
  with Cons.IH [of "obj_set a key z"] Cons.prems kv show ?case
    by (simp add: put_simps)
qed

lemma fold_put_each:
  "fold (\<lambda>(key, val) acc. put acc key (g key val)) props (Some a) = Some fs \<Longrightarrow>
   \<forall>kv \<in> set props. g (fst kv) (snd kv) \<noteq> None"
proof (induction props arbitrary: a)
  case Nil
  then show ?case by simp
next
  case (Cons kv props)
  obtain key val where kv: "kv = (key, val)" by (cases kv)
  show ?case
  proof (cases "g key val")
    case None
    with Cons.prems kv show ?thesis by (simp add: put_simps fold_put_None)
  next
    case (Some z)
    with Cons.prems kv
    have "fold (\<lambda>(key, val) acc. put acc key (g key val)) props (Some (obj_set a key z)) = Some fs"
      by (simp add: put_simps)
    from Cons.IH [OF this] Some kv show ?thesis by simp
  qed
qed

lemma uniform_bound:
  "\<forall>x \<in> set xs. \<exists>n. \<forall>m \<ge> n. P x m \<Longrightarrow> \<exists>n::nat. \<forall>m \<ge> n. \<forall>x \<in> set xs. P x m"
proof (induction xs)
  case Nil
  then show ?case by simp
next
  case (Cons x xs)
  then obtain n1 n2 where "\<forall>m \<ge> n1. P x m" "\<forall>m \<ge> n2. \<forall>x \<in> set xs. P x m" by auto
  then have "\<forall>m \<ge> max n1 n2. \<forall>y \<in> set (x # xs). P y m" by simp
  then show ?case by blast
qed

lemma convert_items_None:
  assumes "resolveSchemaRef (Some s) J = Some r" and "type r = Some ''array''"
    and "resolveSchemaRef (items r) J = None"
  shows "convertSchemaPropertyToZod (Suc m) J (Some s) mk \<noteq> None"
  using assms by (cases "items r") (auto simp: resolved_eq resolveSchemaRef_def)

text \<open>
  On acyclic references the conversion returns, at every call depth from some depth on.
\<close>

lemma convert_returns:
  "ref_acyclic J s \<Longrightarrow>
   \<exists>n. \<forall>m \<ge> n. \<forall>mk. convertSchemaPropertyToZod m J (Some s) mk \<noteq> None"
proof (induction rule: ref_acyclic.induct)
  case (unresolved s)
  then have "\<forall>m \<ge> Suc 0. \<forall>mk. convertSchemaPropertyToZod m J (Some s) mk \<noteq> None"
    by (auto simp: resolved_eq gr0_conv_Suc Suc_le_eq)
  then show ?case by blast
next
  case (leaf s r)
  then have "\<forall>m \<ge> Suc 0. \<forall>mk. convertSchemaPropertyToZod m J (Some s) mk \<noteq> None"
    by (auto simp: resolved_eq gr0_conv_Suc Suc_le_eq)
  then show ?case by blast
next
  case (array_any s r)
  then have "\<forall>m \<ge> Suc 0. \<forall>mk. convertSchemaPropertyToZod m J (Some s) mk \<noteq> None"
    using convert_items_None by (auto simp: gr0_conv_Suc Suc_le_eq)
  then show ?case by blast
next
  case (array_items s r i)
  then obtain n where n: "\<forall>m \<ge> n. \<forall>mk. convertSchemaPropertyToZod m J (Some i) mk \<noteq> None"
    by blast
  from array_items(3) obtain its where its: "items r = Some its"
    by (cases "items r") (auto simp: resolveSchemaRef_def)
  have "\<forall>m \<ge> Suc n. \<forall>mk. convertSchemaPropertyToZod m J (Some s) mk \<noteq> None"
  proof (intro allI impI)
    fix m mk assume "Suc n \<le> m"
    then obtain m' where m: "m = Suc m'" "n \<le> m'" by (cases m) auto
    with n have "convertSchemaPropertyToZod m' J (Some i) False \<noteq> None" by blast
    with array_items(1-3) its m show "convertSchemaPropertyToZod m J (Some s) mk \<noteq> None"
      by (auto simp: resolved_eq)
  qed
  then show ?case by blast
next
  case (object_empty s r)
  then have "\<forall>m \<ge> Suc 0. \<forall>mk. convertSchemaPropertyToZod m J (Some s) mk \<noteq> None"
    by (auto simp: resolved_eq gr0_conv_Suc Suc_le_eq)
  then show ?case by blast
next
  case (object_props s r props)
  then have "\<forall>kv \<in> set props. \<exists>n. \<forall>m \<ge> n.
      \<forall>mk. convertSchemaPropertyToZod m J (Some (snd kv)) mk \<noteq> None"
    by blast
  from uniform_bound [OF this] obtain n where
    n: "\<forall>m \<ge> n. \<forall>kv \<in> set props.
          \<forall>mk. convertSchemaPropertyToZod m J (Some (snd kv)) mk \<noteq> None"
    by blast
  have "\<forall>m \<ge> Suc n. \<forall>mk. convertSchemaPropertyToZod m J (Some s) mk \<noteq> None"
  proof (intro allI impI)
    fix m mk assume "Suc n \<le> m"
    then obtain m' where m: "m = Suc m'" "n \<le> m'" by (cases m) auto
    let ?g = "\<lambda>key val. convertSchemaPropertyToZod m' J (Some val)
                (\<not> isRequired (required r) key)"
    from n m have "\<forall>kv \<in> set props. ?g (fst kv) (snd kv) \<noteq> None" by blast
    from fold_put_Some [of props ?g "[]", OF this] obtain fs where
      "fold (\<lambda>(key, val) acc. put acc key (?g key val)) props (Some []) = Some fs" by blast
    with object_props(1-3) m show "convertSchemaPropertyToZod m J (Some s) mk \<noteq> None"
      by (auto simp: resolved_eq)
  qed
  then show ?case by blast
qed

text \<open>Conversely, a conversion that returns was given acyclic references.\<close>

lemma convert_acyclic:
  "convertSchemaPropertyToZod n J (Some s) mk = Some z \<Longrightarrow> ref_acyclic J s"
proof (induction n arbitrary: s mk z)
  case 0
  then show ?case by simp
next
  case (Suc n)
  show ?case
  proof (cases "resolveSchemaRef (Some s) J")
    case None
    then show ?thesis by (rule ref_acyclic.unresolved)
  next
    case (Some r)
    consider (arr) "type r = Some ''array''" | (obj) "type r = Some ''object''"
      | (other) "type r \<noteq> Some ''array''" "type r \<noteq> Some ''object''" by blast
    then show ?thesis
    proof cases
      case arr
      show ?thesis
      proof (cases "resolveSchemaRef (items r) J")
        case None
        with Some arr show ?thesis by (rule ref_acyclic.array_any)
      next
        case (Some i)
        then obtain its where its: "items r = Some its"
          by (cases "items r") (auto simp: resolveSchemaRef_def)
        with Suc.prems \<open>resolveSchemaRef (Some s) J = Some r\<close> arr Some
        obtain w where "convertSchemaPropertyToZod n J (Some i) False = Some w"
          by (auto simp: resolved_eq)
        from Suc.IH [OF this] have "ref_acyclic J i" .
        with \<open>resolveSchemaRef (Some s) J = Some r\<close> arr Some show ?thesis
          by (rule ref_acyclic.array_items)
      qed
    next
      case obj
      show ?thesis
      proof (cases "properties r")
        case None
        with Some obj show ?thesis by (rule ref_acyclic.object_empty)
      next
        case (Some props)
        let ?g = "\<lambda>key val. convertSchemaPropertyToZod n J (Some val)
                (\<not> isRequired (required r) key)"
        from Suc.prems \<open>resolveSchemaRef (Some s) J = Some r\<close> obj Some
        obtain fs where
          f: "fold (\<lambda>(key, val) acc. put acc key (?g key val)) props (Some []) = Some fs"
          by (auto simp: resolved_eq)
        have "\<forall>kv \<in> set props. ref_acyclic J (snd kv)"
        proof
          fix kv assume kv: "kv \<in> set props"
          from fold_put_each [OF f] kv have "?g (fst kv) (snd kv) \<noteq> None"
            by blast
          then show "ref_acyclic J (snd kv)" using Suc.IH by blast
        qed
        with \<open>resolveSchemaRef (Some s) J = Some r\<close> obj Some show ?thesis
          by (rule ref_acyclic.object_props)
      qed
    next
      case other
      with Some show ?thesis by (rule ref_acyclic.leaf)
    qed
  qed
qed

lemma ex_string_acyclic: "ref_acyclic ex_schemas ex_string"
  by (rule ref_acyclic.leaf [where r = ex_string])
    (simp_all add: resolveSchemaRef_def ex_string_def truthy_def)

lemma ex_tags_acyclic: "ref_acyclic ex_schemas ex_tags"
proof (rule ref_acyclic.array_items [where r = ex_tags and i = ex_string])
  show "resolveSchemaRef (Some ex_tags) ex_schemas = Some ex_tags"
    by (simp add: resolveSchemaRef_def ex_tags_def truthy_def)
  show "type ex_tags = Some ''array''"
    by (simp add: ex_tags_def)
  show "resolveSchemaRef (items ex_tags) ex_schemas = Some ex_string"
    by (simp add: resolveSchemaRef_def ex_tags_def ex_ref_name_def ex_schemas_def
        truthy_def replace_def)
  show "ref_acyclic ex_schemas ex_string"
    by (rule ex_string_acyclic)
qed

lemma ex_object_acyclic: "ref_acyclic ex_schemas ex_object"
proof (rule ref_acyclic.object_props
    [where r = ex_object and props = "[(''id'', ex_string), (''tags'', ex_tags)]"])
  show "resolveSchemaRef (Some ex_object) ex_schemas = Some ex_object"
    by (simp add: resolveSchemaRef_def ex_object_def truthy_def)
  show "type ex_object = Some ''object''"
    by (simp add: ex_object_def)
  show "properties ex_object = Some [(''id'', ex_string), (''tags'', ex_tags)]"
    by (simp add: ex_object_def)
  show "\<forall>kv \<in> set [(''id'', ex_string), (''tags'', ex_tags)]. ref_acyclic ex_schemas (snd kv)"
    by (simp add: ex_string_acyclic ex_tags_acyclic)
qed

text \<open>
  Claim C2, as the code has it. A reference node whose target name is in the schema
  table compiles to the validator of the node found there, with the same flag and at
  every call depth, when that node is not a reference itself. The lookup is made once:
  the \<^verbatim>\<open>$ref\<close> of the node found is not followed, and its \<^verbatim>\<open>type\<close> decides.
\<close>

theorem convert_ref_resolved:
  assumes "truthy (ref s)"
    and "map_of jsonObj (replace (the (ref s)) ''#/components/schemas/'' '''') = Some r"
    and "\<not> truthy (ref r)"
  shows "convertSchemaPropertyToZod n jsonObj (Some s) makeOptional =
         convertSchemaPropertyToZod n jsonObj (Some r) makeOptional"
proof (cases n)
  case 0
  then show ?thesis by simp
next
  case (Suc m)
  from assms(1,2) have "resolveSchemaRef (Some s) jsonObj = Some r"
    by (simp add: resolveSchemaRef_def)
  with assms(1,3) Suc show ?thesis by simp
qed

theorem convert_ref_resolved_witness:
  "truthy (ref ex_ref_name) \<and>
   map_of ex_schemas (replace (the (ref ex_ref_name)) ''#/components/schemas/'' '''')
     = Some ex_string \<and>
   \<not> truthy (ref ex_string) \<and>
   convertSchemaPropertyToZod 1 ex_schemas (Some ex_ref_name) True = Some (ZOptional ZString) \<and>
   convertSchemaPropertyToZod 1 ex_schemas (Some ex_string) True = Some (ZOptional ZString)"
proof -
  have h1: "truthy (ref ex_ref_name)"
    by (simp add: ex_ref_name_def truthy_def)
  have h2: "map_of ex_schemas (replace (the (ref ex_ref_name)) ''#/components/schemas/'' '''')
      = Some ex_string"
    by (simp add: ex_ref_name_def ex_schemas_def replace_def)
  have h3: "\<not> truthy (ref ex_string)"
    by (simp add: ex_string_def truthy_def)
  have "convertSchemaPropertyToZod 1 ex_schemas (Some ex_string) True = Some (ZOptional ZString)"
    by (simp add: ex_string_def truthy_def)
  with h1 h2 h3 convert_ref_resolved [OF h1 h2 h3, of 1 True] show ?thesis by simp
qed

text \<open>
  Claim C2 as it is stated fails where the node found in the table is a reference too:
  the reference to \<open>Alias\<close> compiles to accept-anything, while the node \<open>Alias\<close>, compiled
  directly, follows its own reference and compiles to the validator of \<open>Name\<close>.
\<close>

theorem convert_ref_chain_counterexample:
  "truthy (ref ex_ref_alias) \<and>
   map_of ex_schemas (replace (the (ref ex_ref_alias)) ''#/components/schemas/'' '''')
     = Some ex_ref_name \<and>
   convertSchemaPropertyToZod 2 ex_schemas (Some ex_ref_alias) True = Some (ZOptional ZAny) \<and>
   convertSchemaPropertyToZod 2 ex_schemas (Some ex_ref_name) True = Some (ZOptional ZString)"
  by (simp add: ex_ref_alias_def ex_ref_name_def ex_string_def ex_schemas_def truthy_def
      replace_def resolveSchemaRef_def numeral_2_eq_2)

text \<open>
  Claim C3. Where the conversion of a node returns and the node, once resolved, is an
  object with declared properties, the result is an object validator (wrapped as the
  flag says) with a field for each declared property and no other, and a field is
  optional exactly when its name is not in the \<^verbatim>\<open>required\<close> list of the node. On
  acyclic references the conversion does return, at every call depth from some depth on.
\<close>

theorem object_required_optional:
  assumes "resolveSchemaRef (Some s) jsonObj = Some r"
    and "type r = Some ''object''"
    and "properties r = Some props"
  shows "(convertSchemaPropertyToZod n jsonObj (Some s) makeOptional = Some v \<longrightarrow>
           (\<exists>fs.
              v = (if makeOptional then ZOptional (ZObject fs) else ZObject fs) \<and>
              fst ` set fs = fst ` set props \<and>
              (\<forall>(key, f) \<in> set fs.
                 is_optional f \<longleftrightarrow> \<not> (\<exists>req. required r = Some req \<and> key \<in> set req)))) \<and>
         (ref_acyclic jsonObj s \<longrightarrow>
           (\<exists>n0. \<forall>m \<ge> n0. convertSchemaPropertyToZod m jsonObj (Some s) makeOptional \<noteq> None))"
proof (intro conjI impI)
  assume c: "convertSchemaPropertyToZod n jsonObj (Some s) makeOptional = Some v"
  then obtain m where n: "n = Suc m" by (cases n) auto
  let ?g = "\<lambda>key val. convertSchemaPropertyToZod m jsonObj (Some val)
                (\<not> isRequired (required r) key)"
  from assms c n obtain fs where
    f: "fold (\<lambda>(key, val) acc. put acc key (?g key val)) props (Some []) = Some fs"
    and v: "v = (if makeOptional then ZOptional (ZObject fs) else ZObject fs)"
    by (auto simp: resolved_eq)
  have keys: "fst ` set fs = fst ` set props"
    using fold_put_keys [OF f] by simp
  have "\<And>key z. (key, z) \<in> set fs \<Longrightarrow> is_optional z = (\<not> isRequired (required r) key)"
    by (rule fold_put_all [OF f]) (auto dest: convert_top_optional)
  then have "\<forall>(key, f) \<in> set fs.
      is_optional f \<longleftrightarrow> \<not> (\<exists>req. required r = Some req \<and> key \<in> set req)"
    by (auto simp: isRequired_def split: option.splits)
  with v keys show "\<exists>fs.
      v = (if makeOptional then ZOptional (ZObject fs) else ZObject fs) \<and>
      fst ` set fs = fst ` set props \<and>
      (\<forall>(key, f) \<in> set fs.
         is_optional f \<longleftrightarrow> \<not> (\<exists>req. required r = Some req \<and> key \<in> set req))"
    by blast
next
  assume "ref_acyclic jsonObj s"
  from convert_returns [OF this]
  show "\<exists>n0. \<forall>m \<ge> n0. convertSchemaPropertyToZod m jsonObj (Some s) makeOptional \<noteq> None"
    by blast
qed

theorem object_required_optional_witness:
  "resolveSchemaRef (Some ex_object) ex_schemas = Some ex_object \<and>
   type ex_object = Some ''object'' \<and>
   properties ex_object = Some [(''id'', ex_string), (''tags'', ex_tags)] \<and>
   required ex_object = Some [''id''] \<and>
   ref_acyclic ex_schemas ex_object \<and>
   convertSchemaPropertyToZod 3 ex_schemas (Some ex_object) False
     = Some (ZObject [(''id'', ZString), (''tags'', ZOptional (ZArray ZString))])"
proof -
  have h1: "resolveSchemaRef (Some ex_object) ex_schemas = Some ex_object"
    by (simp add: resolveSchemaRef_def ex_object_def truthy_def)
  have h2: "type ex_object = Some ''object''"
    by (simp add: ex_object_def)
  have h3: "properties ex_object = Some [(''id'', ex_string), (''tags'', ex_tags)]"
    by (simp add: ex_object_def)
  have h4: "convertSchemaPropertyToZod 3 ex_schemas (Some ex_object) False
      = Some (ZObject [(''id'', ZString), (''tags'', ZOptional (ZArray ZString))])"
    by (simp add: ex_object_def ex_tags_def ex_string_def ex_ref_name_def ex_schemas_def
        truthy_def replace_def resolveSchemaRef_def isRequired_def put_def numeral_3_eq_3)
  from object_required_optional [OF h1 h2 h3, of 3 False
      "ZObject [(''id'', ZString), (''tags'', ZOptional (ZArray ZString))]"]
    h1 h2 h3 h4 ex_object_acyclic
  show ?thesis by (simp add: ex_object_def)
qed

text \<open>
  Claim C4. Where the conversion of a node returns and the node, once resolved, is an
  array, the result is an array validator (wrapped as the flag of the array says) whose
  item validator is not optional, whatever the flag; the item validator is
  accept-anything when the node has no \<^verbatim>\<open>items\<close> and when \<^verbatim>\<open>items\<close> is a reference that
  does not resolve. On acyclic references the conversion does return, at every call
  depth from some depth on.
\<close>

theorem array_item_not_optional:
  assumes "resolveSchemaRef (Some s) jsonObj = Some r"
    and "type r = Some ''array''"
  shows "(convertSchemaPropertyToZod n jsonObj (Some s) makeOptional = Some v \<longrightarrow>
           (\<exists>item.
              v = (if makeOptional then ZOptional (ZArray item) else ZArray item) \<and>
              \<not> is_optional item \<and>
              (items r = None \<longrightarrow> item = ZAny) \<and>
              (\<forall>its. items r = Some its \<and> resolveSchemaRef (Some its) jsonObj = None \<longrightarrow>
                 item = ZAny))) \<and>
         (ref_acyclic jsonObj s \<longrightarrow>
           (\<exists>n0. \<forall>m \<ge> n0. convertSchemaPropertyToZod m jsonObj (Some s) makeOptional \<noteq> None))"
proof (intro conjI impI)
  assume c: "convertSchemaPropertyToZod n jsonObj (Some s) makeOptional = Some v"
  then obtain m where n: "n = Suc m" by (cases n) auto
  show "\<exists>item.
      v = (if makeOptional then ZOptional (ZArray item) else ZArray item) \<and>
      \<not> is_optional item \<and>
      (items r = None \<longrightarrow> item = ZAny) \<and>
      (\<forall>its. items r = Some its \<and> resolveSchemaRef (Some its) jsonObj = None \<longrightarrow> item = ZAny)"
  proof (cases "items r")
    case None
    with assms c n show ?thesis by (auto simp: resolved_eq)
  next
    case (Some its)
    show ?thesis
    proof (cases "resolveSchemaRef (Some its) jsonObj")
      case None
      with Some assms c n show ?thesis by (auto simp: resolved_eq)
    next
      case (Some itemSchema)
      with \<open>items r = Some its\<close> assms c n obtain item where
        i: "convertSchemaPropertyToZod m jsonObj (Some itemSchema) False = Some item"
        and v: "v = (if makeOptional then ZOptional (ZArray item) else ZArray item)"
        by (auto simp: resolved_eq)
      from convert_top_optional [OF i] have "\<not> is_optional item" by simp
      with v Some \<open>items r = Some its\<close> show ?thesis by auto
    qed
  qed
next
  assume "ref_acyclic jsonObj s"
  from convert_returns [OF this]
  show "\<exists>n0. \<forall>m \<ge> n0. convertSchemaPropertyToZod m jsonObj (Some s) makeOptional \<noteq> None"
    by blast
qed

theorem array_item_not_optional_witness:
  "resolveSchemaRef (Some ex_tags) ex_schemas = Some ex_tags \<and>
   type ex_tags = Some ''array'' \<and>
   ref_acyclic ex_schemas ex_tags \<and>
   convertSchemaPropertyToZod 2 ex_schemas (Some ex_tags) True
     = Some (ZOptional (ZArray ZString)) \<and>
   \<not> is_optional ZString \<and>
   items ex_array_bare = None \<and>
   convertSchemaPropertyToZod 1 ex_schemas (Some ex_array_bare) False = Some (ZArray ZAny) \<and>
   resolveSchemaRef (items ex_array_missing) ex_schemas = None \<and>
   convertSchemaPropertyToZod 1 ex_schemas (Some ex_array_missing) True
     = Some (ZOptional (ZArray ZAny))"
proof -
  have h1: "resolveSchemaRef (Some ex_tags) ex_schemas = Some ex_tags"
    by (simp add: resolveSchemaRef_def ex_tags_def truthy_def)
  have h2: "type ex_tags = Some ''array''"
    by (simp add: ex_tags_def)
  have h3: "convertSchemaPropertyToZod 2 ex_schemas (Some ex_tags) True
      = Some (ZOptional (ZArray ZString))"
    by (simp add: ex_tags_def ex_string_def ex_ref_name_def ex_schemas_def
        truthy_def replace_def resolveSchemaRef_def numeral_2_eq_2)
  have b1: "resolveSchemaRef (Some ex_array_bare) ex_schemas = Some ex_array_bare"
    by (simp add: resolveSchemaRef_def ex_array_bare_def truthy_def)
  have b2: "type ex_array_bare = Some ''array''" "items ex_array_bare = None"
    by (simp_all add: ex_array_bare_def)
  have b3: "convertSchemaPropertyToZod 1 ex_schemas (Some ex_array_bare) False
      = Some (ZArray ZAny)"
    by (simp add: ex_array_bare_def truthy_def)
  have m1: "resolveSchemaRef (Some ex_array_missing) ex_schemas = Some ex_array_missing"
    by (simp add: resolveSchemaRef_def ex_array_missing_def truthy_def)
  have m2: "type ex_array_missing = Some ''array''"
    "resolveSchemaRef (items ex_array_missing) ex_schemas = None"
    by (simp_all add: ex_array_missing_def resolveSchemaRef_def truthy_def replace_def
        ex_schemas_def)
  have m3: "convertSchemaPropertyToZod 1 ex_schemas (Some ex_array_missing) True
      = Some (ZOptional (ZArray ZAny))"
    by (simp add: ex_array_missing_def truthy_def resolveSchemaRef_def replace_def
        ex_schemas_def)
  from array_item_not_optional [OF h1 h2, of 2 True "ZOptional (ZArray ZString)"]
    array_item_not_optional [OF b1 b2(1), of 1 False "ZArray ZAny"]
    array_item_not_optional [OF m1 m2(1), of 1 True "ZOptional (ZArray ZAny)"]
    h1 h2 h3 b2 b3 m2 m3 ex_tags_acyclic
  show ?thesis by simp
qed

section \<open>Properties of wrapPath\<close>

lemma admin_select_first_present:
  "sel_name (admin_select J item) =
     (case first_present (admin_methods item) of
        None \<Rightarrow> None
      | Some (m, opn) \<Rightarrow> operationId opn)"
  "sel_description (admin_select J item) =
     (case first_present (admin_methods item) of
        None \<Rightarrow> None
      | Some (m, opn) \<Rightarrow> description opn)"
  "first_present (admin_methods item) = Some (m, opn) \<Longrightarrow> sel_method (admin_select J item) = m"
  by (auto simp: admin_select_def admin_methods_def split: option.splits)

lemma store_select_first_present:
  "sel_name (store_select J item) =
     (case first_present (store_methods item) of
        None \<Rightarrow> None
      | Some (m, opn) \<Rightarrow> operationId opn)"
  "sel_description (store_select J item) =
     (case first_present (store_methods item) of
        None \<Rightarrow> None
      | Some (m, opn) \<Rightarrow> description opn)"
  "first_present (store_methods item) = Some (m, opn) \<Longrightarrow> sel_method (store_select J item) = m"
  by (auto simp: store_select_def store_methods_def split: option.splits)

lemma build_tool_fields:
  "build_tool n J path sel nm d = Inr t \<Longrightarrow>
   name t = nm \<and> tool_description t = d \<and> refPath t = path \<and>
   tool_method t = sel_method sel \<and> sel_parameters sel = Some (tool_parameters t) \<and>
   requestBodySchema t = sel_requestBodySchema sel"
  by (auto simp: build_tool_def split: option.splits)

text \<open>Only the test of the name throws an \<^verbatim>\<open>Error\<close>.\<close>

lemma build_tool_not_Error: "build_tool n J path sel nm d \<noteq> Inl (Error msg)"
  by (auto simp: build_tool_def split: option.splits)

lemma truthy_Some: "truthy s \<Longrightarrow> \<exists>t. s = Some t \<and> t \<noteq> []"
  by (cases s) (auto simp: truthy_def)

text \<open>What a tool of the admin service says of the path item it was compiled from.\<close>

lemma admin_wrapPath_Inr:
  assumes "admin_wrapPath n J path item = Inr t"
  shows "\<exists>m opn nm. first_present (admin_methods item) = Some (m, opn) \<and>
           operationId opn = Some nm \<and> nm \<noteq> [] \<and> name t = ''Admin'' @ nm \<and>
           tool_method t = m \<and>
           tool_description t = Some (''This tool helps store administors. '' @
              (case description opn of None \<Rightarrow> ''undefined'' | Some d \<Rightarrow> d))"
proof -
  let ?sel = "admin_select J item"
  from assms have tr: "truthy (sel_name ?sel)"
    by (auto simp: admin_wrapPath_def defineTool_def Let_def split: if_splits)
  with assms have b: "build_tool n J path ?sel (''Admin'' @ the (sel_name ?sel))
      (Some (''This tool helps store administors. '' @
         (case sel_description ?sel of None \<Rightarrow> ''undefined'' | Some d \<Rightarrow> d))) = Inr t"
    by (simp add: admin_wrapPath_def defineTool_def Let_def)
  from truthy_Some [OF tr] obtain nm where nm: "sel_name ?sel = Some nm" "nm \<noteq> []" by blast
  then obtain m opn where fp: "first_present (admin_methods item) = Some (m, opn)"
    and oid: "operationId opn = Some nm"
    by (auto simp: admin_select_first_present split: option.splits)
  from build_tool_fields [OF b] nm fp oid admin_select_first_present(3) [OF fp, of J]
  show ?thesis by (auto simp: admin_select_first_present(2))
qed

text \<open>The same of a tool of the store service.\<close>

lemma store_wrapPath_Inr:
  assumes "store_wrapPath n J path item = Inr t"
  shows "\<exists>m opn nm. first_present (store_methods item) = Some (m, opn) \<and>
           operationId opn = Some nm \<and> nm \<noteq> [] \<and> name t = nm \<and> tool_method t = m \<and>
           tool_description t = description opn"
proof -
  let ?sel = "store_select J item"
  from assms have tr: "truthy (sel_name ?sel)"
    by (auto simp: store_wrapPath_def defineTool_def Let_def split: if_splits)
  with assms have b:
    "build_tool n J path ?sel (the (sel_name ?sel)) (sel_description ?sel) = Inr t"
    by (simp add: store_wrapPath_def defineTool_def Let_def)
  from truthy_Some [OF tr] obtain nm where nm: "sel_name ?sel = Some nm" "nm \<noteq> []" by blast
  then obtain m opn where fp: "first_present (store_methods item) = Some (m, opn)"
    and oid: "operationId opn = Some nm"
    by (auto simp: store_select_first_present split: option.splits)
  from build_tool_fields [OF b] nm fp oid store_select_first_present(3) [OF fp, of J]
  show ?thesis by (auto simp: store_select_first_present(2))
qed

text \<open>The variables selected depend on the first method present alone.\<close>

lemma select_depends:
  "get item \<noteq> None \<Longrightarrow> get item' = get item \<Longrightarrow>
   admin_select J item' = admin_select J item \<and> store_select J item' = store_select J item"
  "get item = None \<Longrightarrow> get item' = None \<Longrightarrow> post item \<noteq> None \<Longrightarrow> post item' = post item \<Longrightarrow>
   admin_select J item' = admin_select J item \<and> store_select J item' = store_select J item"
  by (auto simp: admin_select_def store_select_def split: option.splits)

lemma map_paths_length: "map_paths f ps = Inr ts \<Longrightarrow> length ts = length ps"
  by (induction f ps arbitrary: ts rule: map_paths.induct) (auto split: sum.splits)

text \<open>
  A \<^verbatim>\<open>get\<close> operation without \<^verbatim>\<open>parameters\<close> leaves no array to filter: both services
  raise a \<^verbatim>\<open>TypeError\<close> after the test of the name.
\<close>

lemma get_without_parameters:
  "get item = Some g \<Longrightarrow> truthy (operationId g) \<Longrightarrow> parameters g = None \<Longrightarrow>
   admin_wrapPath n J path item = Inl TypeError \<and> store_wrapPath n J path item = Inl TypeError"
  by (simp add: admin_wrapPath_def store_wrapPath_def defineTool_def admin_select_def
      store_select_def build_tool_def)

lemma ex_get_post_admin:
  "admin_wrapPath 1 [] ''/carts/{id}'' ex_get_post =
     Inr \<lparr>name = ''AdminGetCarts'',
          tool_description = Some ''This tool helps store administors. Retrieve a cart.'',
          inputSchema = [], refPath = ''/carts/{id}'', tool_method = ''get'',
          tool_parameters = [], requestBodySchema = None\<rparr>"
  by (simp add: admin_wrapPath_def defineTool_def admin_select_def build_tool_def parameterSchema_def
      bodySchema_def spread_def truthy_def ex_get_post_def ex_get_op_def)

lemma ex_get_post_store:
  "store_wrapPath 1 [] ''/carts/{id}'' ex_get_post =
     Inr \<lparr>name = ''GetCarts'', tool_description = Some ''Retrieve a cart.'',
          inputSchema = [], refPath = ''/carts/{id}'', tool_method = ''get'',
          tool_parameters = [], requestBodySchema = None\<rparr>"
  by (simp add: store_wrapPath_def defineTool_def store_select_def build_tool_def parameterSchema_def
      bodySchema_def spread_def truthy_def ex_get_post_def ex_get_op_def)

lemma ex_items_compiled:
  "store_wrapPath 1 [] ''/items/{id}'' ex_items = Inr ex_items_tool"
  by (simp add: store_wrapPath_def defineTool_def store_select_def build_tool_def parameterSchema_def
      bodySchema_def spread_def truthy_def or_empty_def resolveSchemaRef_def put_def
      ex_items_def ex_items_op_def ex_items_tool_def ex_string_def)

lemma ex_note_compiled:
  "store_wrapPath 1 [] ''/notes/{id}'' ex_note = Inr ex_note_tool"
  by (simp add: store_wrapPath_def defineTool_def store_select_def build_tool_def parameterSchema_def
      bodySchema_def spread_def truthy_def or_empty_def resolveSchemaRef_def put_def
      ex_note_def ex_note_op_def ex_note_tool_def ex_string_def ex_number_def)

lemma ex_post_delete_admin:
  "admin_wrapPath 1 [] ''/items/{id}'' ex_post_delete =
     Inr (ex_items_tool\<lparr>name := ''AdminPostItemsId'',
            tool_description := Some ''This tool helps store administors. Update an item.''\<rparr>)"
  by (simp add: admin_wrapPath_def defineTool_def admin_select_def build_tool_def parameterSchema_def
      bodySchema_def spread_def truthy_def or_empty_def resolveSchemaRef_def put_def
      ex_post_delete_def ex_items_op_def ex_items_tool_def ex_string_def)

lemma ex_note_admin:
  "admin_wrapPath 1 [] ''/notes/{id}'' ex_note =
     Inr (ex_note_tool\<lparr>name := ''AdminPostNotesId'',
            tool_description := Some ''This tool helps store administors. Update a note.''\<rparr>)"
  by (simp add: admin_wrapPath_def defineTool_def admin_select_def build_tool_def parameterSchema_def
      bodySchema_def spread_def truthy_def or_empty_def resolveSchemaRef_def put_def
      ex_note_def ex_note_op_def ex_note_tool_def ex_string_def ex_number_def)

text \<open>On acyclic schemas the two reducers return, and so does \<^verbatim>\<open>wrapPath\<close>.\<close>

lemma convert_opt_returns:
  "opt_acyclic J so \<Longrightarrow>
   \<exists>n. \<forall>m \<ge> n. \<forall>mk. convertSchemaPropertyToZod m J so mk \<noteq> None"
proof (cases so)
  case None
  then have "\<forall>m \<ge> Suc 0. \<forall>mk. convertSchemaPropertyToZod m J so mk \<noteq> None"
    by (auto simp: gr0_conv_Suc Suc_le_eq)
  then show ?thesis by blast
next
  case (Some s)
  assume "opt_acyclic J so"
  with Some have "ref_acyclic J s" by (simp add: opt_acyclic_def)
  from convert_returns [OF this] Some show ?thesis by blast
qed

lemma fold_put_params_Some:
  "\<forall>p \<in> set ps. h p \<noteq> None \<Longrightarrow>
   \<exists>fs. fold (\<lambda>param acc. put acc (k param) (h param)) ps (Some a) = Some fs"
proof (induction ps arbitrary: a)
  case Nil
  then show ?case by simp
next
  case (Cons p ps)
  then obtain z where "h p = Some z" by auto
  with Cons.IH [of "obj_set a (k p) z"] Cons.prems show ?case
    by (simp add: put_simps)
qed

lemma build_tool_returns:
  assumes "compilable J sel"
  shows "\<exists>n0. \<forall>n \<ge> n0. \<exists>t. build_tool n J path sel nm d = Inr t"
proof -
  from assms obtain ps where ps: "sel_parameters sel = Some ps"
    and pa: "\<forall>p \<in> set (filter (\<lambda>p. p_in p \<noteq> ''header'') ps). opt_acyclic J (p_schema p)"
    by (auto simp: compilable_def list_all_iff split: option.splits)
  from pa have "\<forall>p \<in> set (filter (\<lambda>p. p_in p \<noteq> ''header'') ps).
      \<exists>n. \<forall>m \<ge> n. \<forall>mk. convertSchemaPropertyToZod m J (p_schema p) mk \<noteq> None"
    by (blast dest: convert_opt_returns)
  from uniform_bound [OF this] obtain n1 where
    n1: "\<forall>m \<ge> n1. \<forall>p \<in> set (filter (\<lambda>p. p_in p \<noteq> ''header'') ps).
           \<forall>mk. convertSchemaPropertyToZod m J (p_schema p) mk \<noteq> None"
    by blast
  have "\<exists>n2. \<forall>m \<ge> n2. bodySchema m J (sel_requestBodySchema sel) \<noteq> None"
  proof (cases "sel_requestBodySchema sel")
    case None
    then show ?thesis by (simp add: bodySchema_def)
  next
    case (Some s)
    show ?thesis
    proof (cases "properties s")
      case None
      with Some show ?thesis by (simp add: bodySchema_def)
    next
      case (Some props)
      with assms \<open>sel_requestBodySchema sel = Some s\<close> ps
      have "\<forall>kv \<in> set props. ref_acyclic J (snd kv)"
        by (simp add: compilable_def list_all_iff)
      then have "\<forall>kv \<in> set props. \<exists>n. \<forall>m \<ge> n.
          \<forall>mk. convertSchemaPropertyToZod m J (Some (snd kv)) mk \<noteq> None"
        by (blast dest: convert_returns)
      from uniform_bound [OF this] obtain n2 where
        n2: "\<forall>m \<ge> n2. \<forall>kv \<in> set props.
               \<forall>mk. convertSchemaPropertyToZod m J (Some (snd kv)) mk \<noteq> None"
        by blast
      have "\<forall>m \<ge> n2. bodySchema m J (sel_requestBodySchema sel) \<noteq> None"
      proof (intro allI impI)
        fix m assume "n2 \<le> m"
        with n2 have "\<forall>kv \<in> set props.
            convertSchemaPropertyToZod m J (Some (snd kv)) True \<noteq> None" by blast
        from fold_put_Some
          [of props "\<lambda>key val. convertSchemaPropertyToZod m J (Some val) True" "[]", OF this]
        show "bodySchema m J (sel_requestBodySchema sel) \<noteq> None"
          using Some \<open>sel_requestBodySchema sel = Some s\<close> by (auto simp: bodySchema_def)
      qed
      then show ?thesis by blast
    qed
  qed
  then obtain n2 where n2: "\<forall>m \<ge> n2. bodySchema m J (sel_requestBodySchema sel) \<noteq> None"
    by blast
  have "\<forall>n \<ge> max n1 n2. \<exists>t. build_tool n J path sel nm d = Inr t"
  proof (intro allI impI)
    fix n assume n: "max n1 n2 \<le> n"
    with n1 have "\<forall>p \<in> set (filter (\<lambda>p. p_in p \<noteq> ''header'') ps).
        convertSchemaPropertyToZod n J (p_schema p) True \<noteq> None" by simp
    from fold_put_params_Some
      [of "filter (\<lambda>p. p_in p \<noteq> ''header'') ps"
          "\<lambda>p. convertSchemaPropertyToZod n J (p_schema p) True" p_name "[]", OF this]
    obtain a where a: "parameterSchema n J ps = Some a"
      by (auto simp: parameterSchema_def)
    from n n2 obtain b where b: "bodySchema n J (sel_requestBodySchema sel) = Some b"
      by fastforce
    from ps a b show "\<exists>t. build_tool n J path sel nm d = Inr t"
      by (simp add: build_tool_def)
  qed
  then show ?thesis by blast
qed

lemma wrapPath_returns:
  "\<not> lacks_name (first_present (admin_methods item)) \<Longrightarrow> compilable J (admin_select J item) \<Longrightarrow>
   \<exists>n0. \<forall>n \<ge> n0. \<exists>t. admin_wrapPath n J path item = Inr t"
  "\<not> lacks_name (first_present (store_methods item)) \<Longrightarrow> compilable J (store_select J item) \<Longrightarrow>
   \<exists>n0. \<forall>n \<ge> n0. \<exists>t. store_wrapPath n J path item = Inr t"
proof -
  assume a: "\<not> lacks_name (first_present (admin_methods item))"
    and c: "compilable J (admin_select J item)"
  from a have "truthy (sel_name (admin_select J item))"
    by (auto simp: lacks_name_def admin_select_first_present truthy_def split: option.splits)
  with build_tool_returns [OF c]
  show "\<exists>n0. \<forall>n \<ge> n0. \<exists>t. admin_wrapPath n J path item = Inr t"
    by (simp add: admin_wrapPath_def defineTool_def Let_def)
next
  assume a: "\<not> lacks_name (first_present (store_methods item))"
    and c: "compilable J (store_select J item)"
  from a have "truthy (sel_name (store_select J item))"
    by (auto simp: lacks_name_def store_select_first_present truthy_def split: option.splits)
  with build_tool_returns [OF c]
  show "\<exists>n0. \<forall>n \<ge> n0. \<exists>t. store_wrapPath n J path item = Inr t"
    by (simp add: store_wrapPath_def defineTool_def Let_def)
qed

text \<open>
  Claim C1, as the code has it. A tool of the admin service is compiled from the first
  of \<^verbatim>\<open>get\<close>, \<^verbatim>\<open>post\<close>, \<^verbatim>\<open>delete\<close> the path item has, a tool of the store service
  from the first of \<^verbatim>\<open>get\<close>, \<^verbatim>\<open>post\<close>: its method is that one, its name the
  operation's identifier (after \<^verbatim>\<open>Admin\<close> in the admin service) and its description
  the operation's (after the preamble in the admin service, where one is declared).
  The methods after the first present are ignored: two path items that agree on it
  compile alike. The store service never reads \<^verbatim>\<open>delete\<close>: a path item with neither
  \<^verbatim>\<open>get\<close> nor \<^verbatim>\<open>post\<close> raises the error of a missing name there. A document that
  compiles gives one tool for each of its paths, and a path item whose operation has a
  name and can be compiled does give a tool, at every call depth from some depth on.
\<close>

theorem wrapPath_precedence:
  "(admin_wrapPath n J path item = Inr t \<longrightarrow>
      (\<exists>m opn nm. first_present (admin_methods item) = Some (m, opn) \<and>
         operationId opn = Some nm \<and> name t = ''Admin'' @ nm \<and> tool_method t = m \<and>
         (\<forall>d. description opn = Some d \<longrightarrow>
            tool_description t = Some (''This tool helps store administors. '' @ d)))) \<and>
   (store_wrapPath n J path item = Inr t' \<longrightarrow>
      (\<exists>m opn nm. first_present (store_methods item) = Some (m, opn) \<and>
         operationId opn = Some nm \<and> name t' = nm \<and> tool_method t' = m \<and>
         tool_description t' = description opn)) \<and>
   (get item \<noteq> None \<and> get item' = get item \<longrightarrow>
      admin_wrapPath n J path item' = admin_wrapPath n J path item \<and>
      store_wrapPath n J path item' = store_wrapPath n J path item) \<and>
   (get item = None \<and> get item' = None \<and> post item \<noteq> None \<and> post item' = post item \<longrightarrow>
      admin_wrapPath n J path item' = admin_wrapPath n J path item \<and>
      store_wrapPath n J path item' = store_wrapPath n J path item) \<and>
   (get item = None \<and> post item = None \<longrightarrow>
      store_wrapPath n J path item = Inl (Error ''No name found for the function'')) \<and>
   (admin_defineTools n D A = Inr ts \<longrightarrow> length ts = length (paths A)) \<and>
   (store_defineTools n D A = Inr ts' \<longrightarrow> length ts' = length (paths A)) \<and>
   (\<not> lacks_name (first_present (admin_methods item)) \<and> compilable J (admin_select J item) \<longrightarrow>
      (\<exists>n0. \<forall>k \<ge> n0. \<exists>u. admin_wrapPath k J path item = Inr u)) \<and>
   (\<not> lacks_name (first_present (store_methods item)) \<and> compilable J (store_select J item) \<longrightarrow>
      (\<exists>n0. \<forall>k \<ge> n0. \<exists>u. store_wrapPath k J path item = Inr u))"
proof -
  have 1: "admin_wrapPath n J path item = Inr t \<longrightarrow>
      (\<exists>m opn nm. first_present (admin_methods item) = Some (m, opn) \<and>
         operationId opn = Some nm \<and> name t = ''Admin'' @ nm \<and> tool_method t = m \<and>
         (\<forall>d. description opn = Some d \<longrightarrow>
            tool_description t = Some (''This tool helps store administors. '' @ d)))"
    using admin_wrapPath_Inr [of n J path item t] by auto
  have 2: "store_wrapPath n J path item = Inr t' \<longrightarrow>
      (\<exists>m opn nm. first_present (store_methods item) = Some (m, opn) \<and>
         operationId opn = Some nm \<and> name t' = nm \<and> tool_method t' = m \<and>
         tool_description t' = description opn)"
    using store_wrapPath_Inr [of n J path item t'] by auto
  have 3: "get item \<noteq> None \<and> get item' = get item \<longrightarrow>
      admin_wrapPath n J path item' = admin_wrapPath n J path item \<and>
      store_wrapPath n J path item' = store_wrapPath n J path item"
    using select_depends(1) [of item item' J]
    by (simp add: admin_wrapPath_def store_wrapPath_def defineTool_def)
  have 4: "get item = None \<and> get item' = None \<and> post item \<noteq> None \<and> post item' = post item \<longrightarrow>
      admin_wrapPath n J path item' = admin_wrapPath n J path item \<and>
      store_wrapPath n J path item' = store_wrapPath n J path item"
    using select_depends(2) [of item item' J]
    by (simp add: admin_wrapPath_def store_wrapPath_def defineTool_def)
  have 5: "get item = None \<and> post item = None \<longrightarrow>
      store_wrapPath n J path item = Inl (Error ''No name found for the function'')"
    by (simp add: store_wrapPath_def defineTool_def store_select_def truthy_def)
  have 6: "admin_defineTools n D A = Inr ts \<longrightarrow> length ts = length (paths A)"
    by (simp add: admin_defineTools_def map_paths_length)
  have 7: "store_defineTools n D A = Inr ts' \<longrightarrow> length ts' = length (paths A)"
    by (simp add: store_defineTools_def map_paths_length)
  have 8: "\<not> lacks_name (first_present (admin_methods item)) \<and>
      compilable J (admin_select J item) \<longrightarrow>
      (\<exists>n0. \<forall>k \<ge> n0. \<exists>u. admin_wrapPath k J path item = Inr u)"
    using wrapPath_returns(1) [of item J path] by blast
  have 9: "\<not> lacks_name (first_present (store_methods item)) \<and>
      compilable J (store_select J item) \<longrightarrow>
      (\<exists>n0. \<forall>k \<ge> n0. \<exists>u. store_wrapPath k J path item = Inr u)"
    using wrapPath_returns(2) [of item J path] by blast
  from 1 2 3 4 5 6 7 8 9 show ?thesis by (intro conjI)
qed

theorem wrapPath_precedence_witness:
  "first_present (admin_methods ex_get_post) = Some (''get'', ex_get_op) \<and>
   \<not> lacks_name (first_present (admin_methods ex_get_post)) \<and>
   \<not> lacks_name (first_present (store_methods ex_get_post)) \<and>
   compilable [] (admin_select [] ex_get_post) \<and>
   compilable [] (store_select [] ex_get_post) \<and>
   admin_wrapPath 1 [] ''/carts/{id}'' ex_get_post =
     Inr \<lparr>name = ''AdminGetCarts'',
          tool_description = Some ''This tool helps store administors. Retrieve a cart.'',
          inputSchema = [], refPath = ''/carts/{id}'', tool_method = ''get'',
          tool_parameters = [], requestBodySchema = None\<rparr> \<and>
   store_wrapPath 1 [] ''/carts/{id}'' ex_get_post =
     Inr \<lparr>name = ''GetCarts'', tool_description = Some ''Retrieve a cart.'',
          inputSchema = [], refPath = ''/carts/{id}'', tool_method = ''get'',
          tool_parameters = [], requestBodySchema = None\<rparr> \<and>
   admin_wrapPath 1 [] ''/carts/{id}'' (ex_get_post\<lparr>post := None\<rparr>) =
     admin_wrapPath 1 [] ''/carts/{id}'' ex_get_post \<and>
   admin_defineTools 1 \<lparr>paths = [], schemas = []\<rparr>
       \<lparr>paths = [(''/carts/{id}'', ex_get_post)], schemas = []\<rparr> =
     Inr [\<lparr>name = ''AdminGetCarts'',
          tool_description = Some ''This tool helps store administors. Retrieve a cart.'',
          inputSchema = [], refPath = ''/carts/{id}'', tool_method = ''get'',
          tool_parameters = [], requestBodySchema = None\<rparr>] \<and>
   store_defineTools 1 \<lparr>paths = [], schemas = []\<rparr>
       \<lparr>paths = [(''/items/{id}'', ex_items)], schemas = []\<rparr> = Inr [ex_items_tool] \<and>
   get ex_post_delete = None \<and> post ex_post_delete = Some ex_items_op \<and>
   admin_wrapPath 1 [] ''/items/{id}'' (ex_post_delete\<lparr>delete := None\<rparr>) =
     admin_wrapPath 1 [] ''/items/{id}'' ex_post_delete \<and>
   get ex_delete_only = None \<and> post ex_delete_only = None \<and>
   store_wrapPath 1 [] ''/carts/{id}'' ex_delete_only =
     Inl (Error ''No name found for the function'')"
proof -
  let ?t = "\<lparr>name = ''AdminGetCarts'',
          tool_description = Some ''This tool helps store administors. Retrieve a cart.'',
          inputSchema = [], refPath = ''/carts/{id}'', tool_method = ''get'',
          tool_parameters = [], requestBodySchema = None\<rparr>"
  let ?t' = "\<lparr>name = ''GetCarts'', tool_description = Some ''Retrieve a cart.'',
          inputSchema = [], refPath = ''/carts/{id}'', tool_method = ''get'',
          tool_parameters = [], requestBodySchema = None\<rparr>"
  let ?D = "\<lparr>paths = [], schemas = []\<rparr>"
  have d: "admin_defineTools 1 ?D
       \<lparr>paths = [(''/carts/{id}'', ex_get_post)], schemas = []\<rparr> = Inr [?t]"
    using ex_get_post_admin by (simp add: admin_defineTools_def)
  have d': "store_defineTools 1 ?D
       \<lparr>paths = [(''/items/{id}'', ex_items)], schemas = []\<rparr> = Inr [ex_items_tool]"
    using ex_items_compiled by (simp add: store_defineTools_def)
  have f: "first_present (admin_methods ex_get_post) = Some (''get'', ex_get_op)"
    by (simp add: admin_methods_def ex_get_post_def)
  have c: "compilable [] (admin_select [] ex_get_post)"
    "compilable [] (store_select [] ex_get_post)"
    by (simp_all add: compilable_def admin_select_def store_select_def ex_get_post_def
        ex_get_op_def)
  have l: "\<not> lacks_name (first_present (admin_methods ex_get_post))"
    "\<not> lacks_name (first_present (store_methods ex_get_post))"
    by (simp_all add: lacks_name_def admin_methods_def store_methods_def ex_get_post_def
        ex_get_op_def truthy_def)
  have g: "get ex_post_delete = None" "post ex_post_delete = Some ex_items_op"
    "get ex_delete_only = None" "post ex_delete_only = None"
    by (simp_all add: ex_post_delete_def ex_delete_only_def)
  note A = wrapPath_precedence
    [where n = 1 and J = "[]" and path = "''/carts/{id}''" and item = ex_get_post
       and t = ?t and t' = ?t' and item' = "ex_get_post\<lparr>post := None\<rparr>" and D = ?D
       and A = "\<lparr>paths = [(''/carts/{id}'', ex_get_post)], schemas = []\<rparr>"
       and ts = "[?t]" and ts' = "[]"]
  note B = wrapPath_precedence
    [where n = 1 and J = "[]" and path = "''/items/{id}''" and item = ex_post_delete
       and t = ?t and t' = ?t' and item' = "ex_post_delete\<lparr>delete := None\<rparr>" and D = ?D
       and A = "\<lparr>paths = [(''/items/{id}'', ex_items)], schemas = []\<rparr>"
       and ts = "[]" and ts' = "[ex_items_tool]"]
  note C = wrapPath_precedence
    [where n = 1 and J = "[]" and path = "''/carts/{id}''" and item = ex_delete_only
       and t = ?t and t' = ?t' and item' = ex_delete_only and D = ?D and A = ?D
       and ts = "[]" and ts' = "[]"]
  have a1: "admin_wrapPath 1 [] ''/carts/{id}'' (ex_get_post\<lparr>post := None\<rparr>) =
     admin_wrapPath 1 [] ''/carts/{id}'' ex_get_post"
    using A by (simp add: ex_get_post_def)
  have b1: "admin_wrapPath 1 [] ''/items/{id}'' (ex_post_delete\<lparr>delete := None\<rparr>) =
     admin_wrapPath 1 [] ''/items/{id}'' ex_post_delete"
    using B g by simp
  have c1: "store_wrapPath 1 [] ''/carts/{id}'' ex_delete_only =
     Inl (Error ''No name found for the function'')"
    using C g by simp
  from a1 b1 c1 d d' f l c g ex_get_post_admin ex_get_post_store show ?thesis
    by (intro conjI)
qed

text \<open>
  Claim C1 as it is stated fails on the store service: of a path item whose only method
  is \<^verbatim>\<open>delete\<close> the order get, post, delete selects that operation, which has an
  identifier; the admin service compiles it, the store service raises the error of a
  missing name.
\<close>

theorem store_delete_only_counterexample:
  "first_present (admin_methods ex_delete_only) = Some (''delete'', ex_delete_op) \<and>
   operationId ex_delete_op = Some ''DeleteCarts'' \<and>
   store_wrapPath 1 [] ''/carts/{id}'' ex_delete_only =
     Inl (Error ''No name found for the function'') \<and>
   admin_wrapPath 1 [] ''/carts/{id}'' ex_delete_only =
     Inr \<lparr>name = ''AdminDeleteCarts'',
          tool_description = Some ''This tool helps store administors. undefined'',
          inputSchema = [], refPath = ''/carts/{id}'', tool_method = ''delete'',
          tool_parameters = [], requestBodySchema = None\<rparr>"
  by (simp add: admin_wrapPath_def defineTool_def admin_select_def store_wrapPath_def defineTool_def store_select_def
      build_tool_def parameterSchema_def bodySchema_def spread_def truthy_def or_empty_def
      admin_methods_def ex_delete_only_def ex_delete_op_def)

text \<open>
  Claim C7. In each service, when the operation selected lacks a name (no recognised
  method is present, or the identifier is absent or empty) \<^verbatim>\<open>wrapPath\<close> throws its
  error and returns no tool; when the operation selected has a non-empty identifier,
  \<^verbatim>\<open>wrapPath\<close> does not throw that error, at any call depth.
\<close>

theorem wrapPath_no_name:
  "(lacks_name (first_present (admin_methods item)) \<longrightarrow>
      admin_wrapPath n J path item = Inl (Error (''No name found for path: '' @ path))) \<and>
   (\<not> lacks_name (first_present (admin_methods item)) \<longrightarrow>
      (\<forall>msg. admin_wrapPath n J path item \<noteq> Inl (Error msg))) \<and>
   (lacks_name (first_present (store_methods item)) \<longrightarrow>
      store_wrapPath n J path item = Inl (Error ''No name found for the function'')) \<and>
   (\<not> lacks_name (first_present (store_methods item)) \<longrightarrow>
      (\<forall>msg. store_wrapPath n J path item \<noteq> Inl (Error msg)))"
proof -
  have a: "lacks_name (first_present (admin_methods item)) =
      (\<not> truthy (sel_name (admin_select J item)))"
    by (auto simp: lacks_name_def admin_select_first_present truthy_def split: option.splits)
  have s: "lacks_name (first_present (store_methods item)) =
      (\<not> truthy (sel_name (store_select J item)))"
    by (auto simp: lacks_name_def store_select_first_present truthy_def split: option.splits)
  show ?thesis
    unfolding a s
    by (simp add: admin_wrapPath_def store_wrapPath_def defineTool_def Let_def build_tool_not_Error)
qed

theorem wrapPath_no_name_witness:
  "lacks_name (first_present (admin_methods ex_no_method)) \<and>
   admin_wrapPath 1 [] ''/carts'' ex_no_method = Inl (Error ''No name found for path: /carts'') \<and>
   lacks_name (first_present (store_methods ex_no_method)) \<and>
   store_wrapPath 1 [] ''/carts'' ex_no_method = Inl (Error ''No name found for the function'') \<and>
   \<not> lacks_name (first_present (admin_methods ex_get_post)) \<and>
   \<not> lacks_name (first_present (store_methods ex_get_post)) \<and>
   admin_wrapPath 1 [] ''/carts'' ex_get_post \<noteq> Inl (Error ''No name found for path: /carts'') \<and>
   store_wrapPath 1 [] ''/carts'' ex_get_post \<noteq> Inl (Error ''No name found for the function'')"
proof -
  have 1: "lacks_name (first_present (admin_methods ex_no_method))"
    "lacks_name (first_present (store_methods ex_no_method))"
    by (simp_all add: lacks_name_def admin_methods_def store_methods_def ex_no_method_def)
  have 2: "\<not> lacks_name (first_present (admin_methods ex_get_post))"
    "\<not> lacks_name (first_present (store_methods ex_get_post))"
    by (simp_all add: lacks_name_def admin_methods_def store_methods_def ex_get_post_def
        ex_get_op_def truthy_def)
  from wrapPath_no_name [of ex_no_method 1 "[]" "''/carts''"]
    wrapPath_no_name [of ex_get_post 1 "[]" "''/carts''"] 1 2
  show ?thesis by simp
qed

text \<open>
  Claim C8, as the code has it. Where the operation selected declares a description,
  the description of an admin tool is the preamble
  \<^verbatim>\<open>This tool helps store administors. \<close> followed by it, and the description of a
  store tool is the declared description itself, with no preamble.
\<close>

theorem tool_description_declared:
  "(admin_wrapPath n J path item = Inr t \<and>
    first_present (admin_methods item) = Some (m, opn) \<and> description opn = Some d \<longrightarrow>
      tool_description t = Some (''This tool helps store administors. '' @ d)) \<and>
   (store_wrapPath n J path item = Inr t' \<and>
    first_present (store_methods item) = Some (m', opn') \<and> description opn' = Some d' \<longrightarrow>
      tool_description t' = Some d')"
  using admin_wrapPath_Inr [of n J path item t] store_wrapPath_Inr [of n J path item t']
  by auto

theorem tool_description_declared_witness:
  "first_present (admin_methods ex_get_post) = Some (''get'', ex_get_op) \<and>
   first_present (store_methods ex_get_post) = Some (''get'', ex_get_op) \<and>
   description ex_get_op = Some ''Retrieve a cart.'' \<and>
   admin_wrapPath 1 [] ''/carts/{id}'' ex_get_post =
     Inr \<lparr>name = ''AdminGetCarts'',
          tool_description = Some ''This tool helps store administors. Retrieve a cart.'',
          inputSchema = [], refPath = ''/carts/{id}'', tool_method = ''get'',
          tool_parameters = [], requestBodySchema = None\<rparr> \<and>
   store_wrapPath 1 [] ''/carts/{id}'' ex_get_post =
     Inr \<lparr>name = ''GetCarts'', tool_description = Some ''Retrieve a cart.'',
          inputSchema = [], refPath = ''/carts/{id}'', tool_method = ''get'',
          tool_parameters = [], requestBodySchema = None\<rparr>"
proof -
  let ?t = "\<lparr>name = ''AdminGetCarts'',
          tool_description = Some ''This tool helps store administors. Retrieve a cart.'',
          inputSchema = [], refPath = ''/carts/{id}'', tool_method = ''get'',
          tool_parameters = [], requestBodySchema = None\<rparr>"
  let ?t' = "\<lparr>name = ''GetCarts'', tool_description = Some ''Retrieve a cart.'',
          inputSchema = [], refPath = ''/carts/{id}'', tool_method = ''get'',
          tool_parameters = [], requestBodySchema = None\<rparr>"
  have f: "first_present (admin_methods ex_get_post) = Some (''get'', ex_get_op)"
    "first_present (store_methods ex_get_post) = Some (''get'', ex_get_op)"
    "description ex_get_op = Some ''Retrieve a cart.''"
    by (simp_all add: admin_methods_def store_methods_def ex_get_post_def ex_get_op_def)
  from tool_description_declared
    [of 1 "[]" "''/carts/{id}''" ex_get_post ?t "''get''" ex_get_op "''Retrieve a cart.''"
        ?t' "''get''" ex_get_op "''Retrieve a cart.''"]
    ex_get_post_admin ex_get_post_store f
  show ?thesis by simp
qed

text \<open>
  Claim C8 as it is stated fails where the operation declares no description: the
  template of the admin service then prints \<^verbatim>\<open>undefined\<close> after the preamble. It
  fails on the store service too, whose tools have the declared description with no
  preamble before it.
\<close>

theorem admin_description_undefined_counterexample:
  "first_present (admin_methods ex_delete_only) = Some (''delete'', ex_delete_op) \<and>
   description ex_delete_op = None \<and>
   admin_wrapPath 1 [] ''/carts/{id}'' ex_delete_only =
     Inr \<lparr>name = ''AdminDeleteCarts'',
          tool_description = Some ''This tool helps store administors. undefined'',
          inputSchema = [], refPath = ''/carts/{id}'', tool_method = ''delete'',
          tool_parameters = [], requestBodySchema = None\<rparr> \<and>
   store_wrapPath 1 [] ''/carts/{id}'' ex_get_post =
     Inr \<lparr>name = ''GetCarts'', tool_description = Some ''Retrieve a cart.'',
          inputSchema = [], refPath = ''/carts/{id}'', tool_method = ''get'',
          tool_parameters = [], requestBodySchema = None\<rparr>"
  by (simp add: admin_wrapPath_def store_wrapPath_def defineTool_def admin_select_def
      store_select_def build_tool_def parameterSchema_def bodySchema_def spread_def
      truthy_def or_empty_def admin_methods_def ex_delete_only_def ex_delete_op_def
      ex_get_post_def ex_get_op_def)

section \<open>Properties of the handler\<close>

lemma obj_set_append: "key \<notin> fst ` set a \<Longrightarrow> obj_set a key v = a @ [(key, v)]"
  by (induction a key v rule: obj_set.induct) auto

lemma route_step_channel:
  "route_step ps names (key, v) (q, p, b) =
     (case spec_channel ps names key of
        Path \<Rightarrow> (q, obj_set p key v, b)
      | Query \<Rightarrow> (obj_set q key v, p, b)
      | Body \<Rightarrow> (q, p, obj_set b key v)
      | Dropped \<Rightarrow> (q, p, b))"
  by (simp add: route_step_def spec_channel_def split: option.splits)

lemma route_fold:
  assumes "distinct (map fst input)"
    and "fst ` set q \<inter> fst ` set input = {}"
    and "fst ` set p \<inter> fst ` set input = {}"
    and "fst ` set b \<inter> fst ` set input = {}"
  shows "fold (route_step ps names) input (q, p, b) =
           (q @ filter (\<lambda>kv. spec_channel ps names (fst kv) = Query) input,
            p @ filter (\<lambda>kv. spec_channel ps names (fst kv) = Path) input,
            b @ filter (\<lambda>kv. spec_channel ps names (fst kv) = Body) input)"
  using assms
proof (induction input arbitrary: q p b)
  case Nil
  then show ?case by simp
next
  case (Cons kv input)
  obtain key v where kv: "kv = (key, v)" by (cases kv)
  from Cons.prems kv
  have fresh: "key \<notin> fst ` set q" "key \<notin> fst ` set p" "key \<notin> fst ` set b"
    and rest: "key \<notin> fst ` set input" "distinct (map fst input)"
    and disj: "fst ` set q \<inter> fst ` set input = {}" "fst ` set p \<inter> fst ` set input = {}"
      "fst ` set b \<inter> fst ` set input = {}"
    by auto
  show ?case
  proof (cases "spec_channel ps names key")
    case Path
    have "fst ` set (p @ [(key, v)]) \<inter> fst ` set input = {}"
      using disj(2) rest(1) by auto
    from Cons.IH [OF rest(2) disj(1) this disj(3)] Path kv fresh show ?thesis
      by (simp add: route_step_channel obj_set_append)
  next
    case Query
    have "fst ` set (q @ [(key, v)]) \<inter> fst ` set input = {}"
      using disj(1) rest(1) by auto
    from Cons.IH [OF rest(2) this disj(2) disj(3)] Query kv fresh show ?thesis
      by (simp add: route_step_channel obj_set_append)
  next
    case Body
    have "fst ` set (b @ [(key, v)]) \<inter> fst ` set input = {}"
      using disj(3) rest(1) by auto
    from Cons.IH [OF rest(2) disj(1) disj(2) this] Body kv fresh show ?thesis
      by (simp add: route_step_channel obj_set_append)
  next
    case Dropped
    from Cons.IH [OF rest(2) disj] Dropped kv show ?thesis
      by (simp add: route_step_channel)
  qed
qed

text \<open>
  The first loop of the handler is the router of the specification: of the entries of
  an argument object, whose keys are distinct, each goes to its channel in the order of
  the entries, and the dropped ones go nowhere.
\<close>

lemma route_partition:
  "distinct (map fst input) \<Longrightarrow>
   route ps names input =
     (filter (\<lambda>kv. spec_channel ps names (fst kv) = Query) input,
      filter (\<lambda>kv. spec_channel ps names (fst kv) = Path) input,
      filter (\<lambda>kv. spec_channel ps names (fst kv) = Body) input)"
  using route_fold [of input "[]" "[]" "[]" ps names] by (simp add: route_def)

text \<open>A replacement text without \<^verbatim>\<open>$\<close> is put in place of the match as it is.\<close>

lemma getSubstitution_no_dollar:
  "CHR ''$'' \<notin> set rv \<Longrightarrow> getSubstitution matched pre suf rv = rv"
  by (induction matched pre suf rv rule: getSubstitution.induct) auto

lemma split_first_Some:
  "split_first pat s = Some (pre, suf) \<Longrightarrow> s = pre @ pat @ suf"
proof (induction pat s arbitrary: pre suf rule: split_first.induct)
  case (1 pat)
  then show ?case by (auto split: if_splits)
next
  case (2 pat c cs)
  show ?case
  proof (cases "take (length pat) (c # cs) = pat")
    case True
    with 2 have "pre = []" "suf = drop (length pat) (c # cs)" by auto
    with True show ?thesis by (metis append_Nil append_take_drop_id)
  next
    case False
    with 2 show ?thesis by (auto split: option.splits)
  qed
qed

text \<open>The match is the first occurrence of the pattern, and a string without it has none.\<close>

lemma split_first_None:
  "split_first pat s = None \<Longrightarrow> s \<noteq> pre @ pat @ suf"
proof (induction pat s arbitrary: pre rule: split_first.induct)
  case (1 pat)
  then show ?case by (auto split: if_splits)
next
  case (2 pat c cs)
  from 2(2) have nt: "take (length pat) (c # cs) \<noteq> pat" and r: "split_first pat cs = None"
    by (auto split: if_splits option.splits)
  show ?case
  proof
    assume eq: "c # cs = pre @ pat @ suf"
    show False
    proof (cases pre)
      case Nil
      with eq have "take (length pat) (c # cs) = pat" by simp
      with nt show False by contradiction
    next
      case (Cons d pre')
      with eq have "cs = pre' @ pat @ suf" by simp
      with 2(1) [OF nt r, of pre'] show False by contradiction
    qed
  qed
qed

lemma split_first_first:
  "split_first pat s = Some (pre, suf) \<Longrightarrow> s = pre' @ pat @ suf' \<Longrightarrow> length pre \<le> length pre'"
proof (induction pat s arbitrary: pre pre' rule: split_first.induct)
  case (1 pat)
  then show ?case by (auto split: if_splits)
next
  case (2 pat c cs)
  show ?case
  proof (cases "take (length pat) (c # cs) = pat")
    case True
    with 2(2) show ?thesis by simp
  next
    case False
    with 2(2) obtain p where p: "split_first pat cs = Some (p, suf)" and pre: "pre = c # p"
      by (auto split: option.splits)
    show ?thesis
    proof (cases pre')
      case Nil
      with 2(3) have "take (length pat) (c # cs) = pat" by simp
      with False show ?thesis by contradiction
    next
      case (Cons d q)
      with 2(3) have "cs = q @ pat @ suf'" by simp
      from 2(1) [OF False p this] pre Cons show ?thesis by simp
    qed
  qed
qed

lemma replace_no_dollar:
  "CHR ''$'' \<notin> set rv \<Longrightarrow> split_first pat s = Some (pre, suf) \<Longrightarrow>
   s = pre @ pat @ suf \<and> replace s pat rv = pre @ rv @ suf"
  by (simp add: replace_def getSubstitution_no_dollar split_first_Some)

text \<open>An argument that is dropped leaves no trace in the three objects.\<close>

lemma fold_skip:
  "(\<And>v s. f (key, v) s = s) \<Longrightarrow>
   fold f input s = fold f (filter (\<lambda>kv. fst kv \<noteq> key) input) s"
proof (induction input arbitrary: s)
  case Nil
  then show ?case by simp
next
  case (Cons kv input)
  then show ?case by (cases kv) auto
qed

lemma route_dropped:
  "spec_channel ps names key = Dropped \<Longrightarrow>
   route ps names input = route ps names (filter (\<lambda>kv. fst kv \<noteq> key) input)"
  unfolding route_def
  by (rule fold_skip) (auto simp: route_step_channel split: prod.splits)

text \<open>Objects written key by key have distinct keys, and the last value written stays.\<close>

lemma map_of_obj_set: "map_of (obj_set a key v) = (map_of a)(key \<mapsto> v)"
  by (induction a key v rule: obj_set.induct) (auto simp: fun_eq_iff)

lemma distinct_obj_set: "distinct (map fst a) \<Longrightarrow> distinct (map fst (obj_set a key v))"
proof (induction a key v rule: obj_set.induct)
  case (1 key v)
  then show ?case by simp
next
  case (2 k w kvs key v)
  then show ?case by (auto simp: keys_obj_set)
qed

lemma fold_put_distinct:
  "fold (\<lambda>(key, val) acc. put acc key (g key val)) props (Some a) = Some fs \<Longrightarrow>
   distinct (map fst a) \<Longrightarrow> distinct (map fst fs)"
proof (induction props arbitrary: a)
  case Nil
  then show ?case by simp
next
  case (Cons kv props)
  obtain key val where kv: "kv = (key, val)" by (cases kv)
  show ?case
  proof (cases "g key val")
    case None
    with Cons.prems kv show ?thesis by (simp add: put_simps fold_put_None)
  next
    case (Some z)
    with Cons.prems kv
    have "fold (\<lambda>(key, val) acc. put acc key (g key val)) props (Some (obj_set a key z)) = Some fs"
      by (simp add: put_simps)
    from Cons.IH [OF this] Cons.prems(2) show ?thesis by (simp add: distinct_obj_set)
  qed
qed

lemma bodySchema_distinct: "bodySchema n J rbs = Some b \<Longrightarrow> distinct (map fst b)"
  by (auto simp: bodySchema_def split: option.splits dest: fold_put_distinct)

lemma map_of_fold_obj_set:
  "map_of (fold (\<lambda>(k, v) acc. obj_set acc k v) xs acc) = map_of acc ++ map_of (rev xs)"
proof (induction xs arbitrary: acc)
  case Nil
  then show ?case by simp
next
  case (Cons kv xs)
  obtain k v where kv: "kv = (k, v)" by (cases kv)
  show ?case
    by (simp add: kv Cons.IH map_of_obj_set fun_eq_iff map_add_def split: option.splits)
qed

text \<open>In \<^verbatim>\<open>{...parameterSchema, ...bodySchema}\<close> a body field keeps its validator.\<close>

lemma map_of_spread_body:
  assumes "distinct (map fst b)" and "(key, z) \<in> set b"
  shows "map_of (spread a b) key = Some z"
proof -
  from assms have "map_of (rev b) key = Some z"
    by (simp add: distinct_rev rev_map [symmetric])
  then show ?thesis
    by (simp add: spread_def map_of_fold_obj_set map_add_def)
qed

lemma build_tool_body_field:
  assumes "build_tool n J path sel nm d = Inr t"
    and "bodySchema n J (requestBodySchema t) = Some bschema"
    and "(key, z) \<in> set bschema"
  shows "map_of (inputSchema t) key = Some z"
proof -
  from assms(1) have r: "requestBodySchema t = sel_requestBodySchema sel"
    by (simp add: build_tool_fields)
  with assms(1,2) obtain pschema where "inputSchema t = spread pschema bschema"
    by (auto simp: build_tool_def split: option.splits)
  moreover from assms(2) have "distinct (map fst bschema)"
    by (rule bodySchema_distinct)
  ultimately show ?thesis
    using assms(3) by (simp add: map_of_spread_body)
qed

text \<open>
  The routing example of the specification (claim C5): the call goes to
  \<^verbatim>\<open>/items/42\<close> with an empty query and the body \<^verbatim>\<open>{name: "widget"}\<close>, and
  \<^verbatim>\<open>extra\<close> is dropped.
\<close>

lemma handler_items_example:
  "handler ''token'' ex_items_tool
     [(''id'', JString ''42''), (''name'', JString ''widget''), (''extra'', JString ''x'')] =
   \<lparr>req_path = ''/items/42'', req_method = ''post'',
    req_headers =
      [(''Content-Type'', ''application/json''), (''Accept'', ''application/json''),
       (''Authorization'', ''Bearer token'')],
    req_query = [], req_body = Some [(''name'', JString ''widget'')]\<rparr>"
  by (simp add: handler_def ex_items_tool_def ex_string_def route_def route_step_def
      finalPath_def bodyPropertyNames_def replace_def)

text \<open>
  Claim C5 fails on the code where the string of a path argument holds a replacement
  pattern of \<^verbatim>\<open>String.prototype.replace\<close>. For the tool of the routing example and the
  argument \<^verbatim>\<open>id = "$&"\<close> the handler calls \<^verbatim>\<open>/items/{id}\<close>: the pattern stands for
  the matched placeholder, so the argument is not substituted. (Likewise \<^verbatim>\<open>"a$$b"\<close>
  gives \<^verbatim>\<open>/items/a$b\<close>.)
\<close>

theorem handler_dollar_pattern:
  "handler ''token'' ex_items_tool [(''id'', JString ''$&''), (''name'', JString ''widget'')] =
   \<lparr>req_path = ''/items/{id}'', req_method = ''post'',
    req_headers =
      [(''Content-Type'', ''application/json''), (''Accept'', ''application/json''),
       (''Authorization'', ''Bearer token'')],
    req_query = [], req_body = Some [(''name'', JString ''widget'')]\<rparr>"
  by (simp add: handler_def ex_items_tool_def ex_string_def route_def route_step_def
      finalPath_def bodyPropertyNames_def replace_def)

text \<open>
  Claim C10. An argument whose name is that of a declared parameter with a location
  other than \<^verbatim>\<open>path\<close> and \<^verbatim>\<open>query\<close> is dropped entirely: the handler makes the call
  it makes without the argument, whether or not a body field has the name. In the input
  schema of a compiled tool, though, a name that is a body field has the validator of
  the body field, whatever parameter shares the name.
\<close>

theorem header_parameter_shadows_body_field:
  "(find (\<lambda>p. p_name p = key) (tool_parameters t) = Some param \<and>
    p_in param \<noteq> ''path'' \<and> p_in param \<noteq> ''query'' \<longrightarrow>
      handler credential t input =
      handler credential t (filter (\<lambda>kv. fst kv \<noteq> key) input)) \<and>
   (admin_wrapPath n J path item = Inr t' \<and>
    bodySchema n J (requestBodySchema t') = Some bschema \<and> (key', z) \<in> set bschema \<longrightarrow>
      map_of (inputSchema t') key' = Some z) \<and>
   (store_wrapPath n J path item = Inr t' \<and>
    bodySchema n J (requestBodySchema t') = Some bschema \<and> (key', z) \<in> set bschema \<longrightarrow>
      map_of (inputSchema t') key' = Some z)"
proof -
  have 1: "find (\<lambda>p. p_name p = key) (tool_parameters t) = Some param \<and>
    p_in param \<noteq> ''path'' \<and> p_in param \<noteq> ''query'' \<longrightarrow>
      handler credential t input =
      handler credential t (filter (\<lambda>kv. fst kv \<noteq> key) input)"
  proof
    assume "find (\<lambda>p. p_name p = key) (tool_parameters t) = Some param \<and>
      p_in param \<noteq> ''path'' \<and> p_in param \<noteq> ''query''"
    then have
      "spec_channel (tool_parameters t) (bodyPropertyNames (requestBodySchema t)) key = Dropped"
      by (simp add: spec_channel_def)
    from route_dropped [OF this] show
      "handler credential t input =
       handler credential t (filter (\<lambda>kv. fst kv \<noteq> key) input)"
      by (simp add: handler_def)
  qed
  have 2: "admin_wrapPath n J path item = Inr t' \<and>
    bodySchema n J (requestBodySchema t') = Some bschema \<and> (key', z) \<in> set bschema \<longrightarrow>
      map_of (inputSchema t') key' = Some z"
    by (auto simp: admin_wrapPath_def defineTool_def Let_def split: if_splits dest: build_tool_body_field)
  have 3: "store_wrapPath n J path item = Inr t' \<and>
    bodySchema n J (requestBodySchema t') = Some bschema \<and> (key', z) \<in> set bschema \<longrightarrow>
      map_of (inputSchema t') key' = Some z"
    by (auto simp: store_wrapPath_def defineTool_def Let_def split: if_splits dest: build_tool_body_field)
  from 1 2 3 show ?thesis by blast
qed

theorem header_parameter_shadows_body_field_witness:
  "find (\<lambda>p. p_name p = ''note'') (tool_parameters ex_note_tool)
     = Some \<lparr>p_name = ''note'', p_in = ''header'', p_schema = Some ex_string\<rparr> \<and>
   find (\<lambda>p. p_name p = ''tag'') (tool_parameters ex_note_tool)
     = Some \<lparr>p_name = ''tag'', p_in = ''cookie'', p_schema = Some ex_number\<rparr> \<and>
   handler ''token'' ex_note_tool
     [(''id'', JString ''7''), (''note'', JString ''hello''), (''name'', JString ''n''),
      (''tag'', JString ''t'')] =
   \<lparr>req_path = ''/notes/7'', req_method = ''post'',
    req_headers =
      [(''Content-Type'', ''application/json''), (''Accept'', ''application/json''),
       (''Authorization'', ''Bearer token'')],
    req_query = [], req_body = Some [(''name'', JString ''n'')]\<rparr> \<and>
   store_wrapPath 1 [] ''/notes/{id}'' ex_note = Inr ex_note_tool \<and>
   admin_wrapPath 1 [] ''/notes/{id}'' ex_note =
     Inr (ex_note_tool\<lparr>name := ''AdminPostNotesId'',
            tool_description := Some ''This tool helps store administors. Update a note.''\<rparr>) \<and>
   parameterSchema 1 [] (tool_parameters ex_note_tool)
     = Some [(''id'', ZOptional ZString), (''tag'', ZOptional ZNumber)] \<and>
   bodySchema 1 [] (requestBodySchema ex_note_tool)
     = Some [(''name'', ZOptional ZString), (''note'', ZOptional ZString),
             (''tag'', ZOptional ZString)] \<and>
   map_of (inputSchema ex_note_tool) ''note'' = Some (ZOptional ZString) \<and>
   map_of (inputSchema ex_note_tool) ''tag'' = Some (ZOptional ZString) \<and>
   map_of (inputSchema (ex_note_tool\<lparr>name := ''AdminPostNotesId'',
            tool_description := Some ''This tool helps store administors. Update a note.''\<rparr>))
     ''tag'' = Some (ZOptional ZString)"
proof -
  let ?note = "\<lparr>p_name = ''note'', p_in = ''header'', p_schema = Some ex_string\<rparr>"
  let ?tag = "\<lparr>p_name = ''tag'', p_in = ''cookie'', p_schema = Some ex_number\<rparr>"
  let ?input = "[(''id'', JString ''7''), (''note'', JString ''hello''),
      (''name'', JString ''n''), (''tag'', JString ''t'')]"
  let ?input' = "[(''id'', JString ''7''), (''name'', JString ''n''), (''tag'', JString ''t'')]"
  let ?b = "[(''name'', ZOptional ZString), (''note'', ZOptional ZString),
      (''tag'', ZOptional ZString)]"
  let ?u = "ex_note_tool\<lparr>name := ''AdminPostNotesId'',
            tool_description := Some ''This tool helps store administors. Update a note.''\<rparr>"
  have f: "find (\<lambda>p. p_name p = ''note'') (tool_parameters ex_note_tool) = Some ?note"
    "find (\<lambda>p. p_name p = ''tag'') (tool_parameters ex_note_tool) = Some ?tag"
    by (simp_all add: ex_note_tool_def)
  have h: "handler ''token'' ex_note_tool [(''id'', JString ''7''), (''name'', JString ''n'')] =
   \<lparr>req_path = ''/notes/7'', req_method = ''post'',
    req_headers =
      [(''Content-Type'', ''application/json''), (''Accept'', ''application/json''),
       (''Authorization'', ''Bearer token'')],
    req_query = [], req_body = Some [(''name'', JString ''n'')]\<rparr>"
    by (simp add: handler_def ex_note_tool_def ex_string_def route_def route_step_def
        finalPath_def bodyPropertyNames_def replace_def)
  have p: "parameterSchema 1 [] (tool_parameters ex_note_tool)
     = Some [(''id'', ZOptional ZString), (''tag'', ZOptional ZNumber)]"
    by (simp add: parameterSchema_def ex_note_tool_def ex_string_def ex_number_def put_def
        truthy_def)
  have b: "bodySchema 1 [] (requestBodySchema ex_note_tool) = Some ?b"
    by (simp add: bodySchema_def ex_note_tool_def ex_string_def put_def truthy_def)
  have b': "bodySchema 1 [] (requestBodySchema ?u) = Some ?b"
    using b by simp
  note N = header_parameter_shadows_body_field
    [where key = "''note''" and t = ex_note_tool and param = ?note
       and credential = "''token''" and input = ?input and n = 1 and J = "[]"
       and path = "''/notes/{id}''" and item = ex_note and t' = ex_note_tool
       and bschema = ?b and key' = "''note''" and z = "ZOptional ZString"]
  note T = header_parameter_shadows_body_field
    [where key = "''tag''" and t = ex_note_tool and param = ?tag
       and credential = "''token''" and input = ?input' and n = 1 and J = "[]"
       and path = "''/notes/{id}''" and item = ex_note and t' = ex_note_tool
       and bschema = ?b and key' = "''tag''" and z = "ZOptional ZString"]
  note A = header_parameter_shadows_body_field
    [where key = "''tag''" and t = ex_note_tool and param = ?tag
       and credential = "''token''" and input = ?input' and n = 1 and J = "[]"
       and path = "''/notes/{id}''" and item = ex_note and t' = ?u
       and bschema = ?b and key' = "''tag''" and z = "ZOptional ZString"]
  have 1: "handler ''token'' ex_note_tool ?input = handler ''token'' ex_note_tool ?input'"
    using N f by simp
  have 2: "handler ''token'' ex_note_tool ?input' =
      handler ''token'' ex_note_tool [(''id'', JString ''7''), (''name'', JString ''n'')]"
    using T f by simp
  have 3: "map_of (inputSchema ex_note_tool) ''note'' = Some (ZOptional ZString)"
    using N b ex_note_compiled by simp
  have 4: "map_of (inputSchema ex_note_tool) ''tag'' = Some (ZOptional ZString)"
    using T b ex_note_compiled by simp
  have 5: "map_of (inputSchema ?u) ''tag'' = Some (ZOptional ZString)"
    using A b' ex_note_admin by simp
  from 1 2 h have 6: "handler ''token'' ex_note_tool ?input =
   \<lparr>req_path = ''/notes/7'', req_method = ''post'',
    req_headers =
      [(''Content-Type'', ''application/json''), (''Accept'', ''application/json''),
       (''Authorization'', ''Bearer token'')],
    req_query = [], req_body = Some [(''name'', JString ''n'')]\<rparr>"
    by simp
  from 3 4 5 6 f p b ex_note_compiled ex_note_admin show ?thesis by (intro conjI)
qed

section \<open>Properties of the assembly in main\<close>

text \<open>
  Claim C6. With \<^verbatim>\<open>allowAllTools\<close> false and a non-empty list of allowed names, the
  tools kept are exactly those whose name is in the list, in their order; otherwise
  (\<^verbatim>\<open>allowAllTools\<close> true, the list absent or empty) the tools are left as they are. Of
  tools named X, Y and Z the list \<^verbatim>\<open>["X"]\<close> keeps the first alone.
\<close>

theorem filter_tools_allow_list:
  "(\<not> allowAllTools cfg \<and> allowedTools cfg = Some l \<and> l \<noteq> [] \<longrightarrow>
      filter_tools cfg tools = filter (\<lambda>t. name t \<in> set l) tools) \<and>
   (allowAllTools cfg \<or> allowedTools cfg = None \<or> allowedTools cfg = Some [] \<longrightarrow>
      filter_tools cfg tools = tools) \<and>
   (\<not> allowAllTools cfg \<and> allowedTools cfg = Some [''X''] \<and>
    name x = ''X'' \<and> name y = ''Y'' \<and> name z = ''Z'' \<longrightarrow>
      filter_tools cfg [x, y, z] = [x])"
  by (auto simp: filter_tools_def)

theorem filter_tools_allow_list_witness:
  "filter_tools \<lparr>allowedTools = Some [''X''], allowAllTools = False\<rparr>
     [ex_tool ''X'', ex_tool ''Y'', ex_tool ''Z''] = [ex_tool ''X''] \<and>
   filter_tools \<lparr>allowedTools = Some [''X''], allowAllTools = True\<rparr>
     [ex_tool ''X'', ex_tool ''Y'', ex_tool ''Z'']
     = [ex_tool ''X'', ex_tool ''Y'', ex_tool ''Z'']"
  using
    filter_tools_allow_list
      [of "\<lparr>allowedTools = Some [''X''], allowAllTools = False\<rparr>" "[''X'']"
          "[ex_tool ''X'', ex_tool ''Y'', ex_tool ''Z'']"]
    filter_tools_allow_list
      [of "\<lparr>allowedTools = Some [''X''], allowAllTools = True\<rparr>" "[''X'']"
          "[ex_tool ''X'', ex_tool ''Y'', ex_tool ''Z'']"]
  by (simp add: ex_tool_def)

text \<open>
  Claim C9. When the login fails and the store document compiles, the tools assembled
  are the store's alone, the service keeps the token it had and \<^verbatim>\<open>main\<close> goes on; when
  the login succeeds and both documents compile, the tools are the store's followed by
  the admin's, and the service holds the token of the login.
\<close>

theorem assemble_fallback:
  "(login = Inl e \<and> storeTools = Inr st \<longrightarrow>
      assemble login storeTools adminTools svc = Inr (svc, st)) \<and>
   (login = Inr tok \<and> storeTools = Inr st \<and> adminTools = Inr at \<longrightarrow>
      assemble login storeTools adminTools svc = Inr (svc\<lparr>adminToken := tok\<rparr>, st @ at))"
  by (simp add: assemble_def init_def try_tools_def catch_tools_def)

theorem assemble_fallback_witness:
  "assemble (Inl (Error ''Unauthorized'')) (Inr [ex_tool ''ListProducts''])
     (Inr [ex_tool ''AdminGetOrders'']) \<lparr>adminToken = []\<rparr>
     = Inr (\<lparr>adminToken = []\<rparr>, [ex_tool ''ListProducts'']) \<and>
   assemble (Inr ''token'') (Inr [ex_tool ''ListProducts''])
     (Inr [ex_tool ''AdminGetOrders'']) \<lparr>adminToken = []\<rparr>
     = Inr (\<lparr>adminToken = ''token''\<rparr>, [ex_tool ''ListProducts'', ex_tool ''AdminGetOrders''])"
  using
    assemble_fallback
      [where login = "Inl (Error ''Unauthorized'')" and e = "Error ''Unauthorized''"
         and storeTools = "Inr [ex_tool ''ListProducts'']" and st = "[ex_tool ''ListProducts'']"
         and adminTools = "Inr [ex_tool ''AdminGetOrders'']" and svc = "\<lparr>adminToken = []\<rparr>"]
    assemble_fallback
      [where login = "Inr ''token''" and tok = "''token''"
         and storeTools = "Inr [ex_tool ''ListProducts'']" and st = "[ex_tool ''ListProducts'']"
         and adminTools = "Inr [ex_tool ''AdminGetOrders'']"
         and at = "[ex_tool ''AdminGetOrders'']" and svc = "\<lparr>adminToken = []\<rparr>"]
  by simp

text \<open>
  The same \<^verbatim>\<open>try\<close> statement catches an exception of the admin document's compilation
  after a login that succeeded, and the store's tools are assembled alone; an exception
  of the store document's compilation is raised again in the \<^verbatim>\<open>catch\<close> block and ends
  \<^verbatim>\<open>main\<close>.
\<close>

lemma assemble_admin_raises:
  "login = Inr tok \<Longrightarrow> storeTools = Inr st \<Longrightarrow> adminTools = Inl e \<Longrightarrow>
   assemble login storeTools adminTools svc = Inr (svc\<lparr>adminToken := tok\<rparr>, st)"
  by (simp add: assemble_def init_def try_tools_def catch_tools_def)

lemma assemble_store_raises:
  "storeTools = Inl e \<Longrightarrow> assemble login storeTools adminTools svc = Inl e"
  by (simp add: assemble_def init_def try_tools_def catch_tools_def split: sum.splits)

end
